theory Spec2Isabelle
  imports Main
begin

section \<open>Text, as the Python runtime handles it\<close>

text \<open>
  A Python \<open>str\<close> is modelled as a \<open>string\<close>: a list of characters, each standing for
  the code point of the same number (the model covers code points below 256).
\<close>

definition newline :: char where
  "newline = CHR 0x0A"

definition startswith :: "string \<Rightarrow> string \<Rightarrow> bool" where
  "startswith s pre \<longleftrightarrow> take (length pre) s = pre"

definition endswith :: "string \<Rightarrow> string \<Rightarrow> bool" where
  "endswith s suf \<longleftrightarrow> length suf \<le> length s \<and> drop (length s - length suf) s = suf"

text \<open>\<open>str.isspace\<close> for one character: the code points Python counts as whitespace.\<close>

definition isspace :: "char \<Rightarrow> bool" where
  "isspace c \<longleftrightarrow> (of_char c :: nat) \<in> {9, 10, 11, 12, 13, 28, 29, 30, 31, 32, 133, 160}"

text \<open>\<open>str.strip()\<close>: leading whitespace goes, then trailing whitespace.\<close>

definition strip :: "string \<Rightarrow> string" where
  "strip s = rev (dropWhile isspace (rev (dropWhile isspace s)))"

text \<open>\<open>str.lower()\<close>: the upper-case letters of ASCII and of Latin-1 move 32 up.\<close>

definition lower_char :: "char \<Rightarrow> char" where
  "lower_char c =
     (let n = (of_char c :: nat)
      in if (65 \<le> n \<and> n \<le> 90) \<or> (192 \<le> n \<and> n \<le> 222 \<and> n \<noteq> 215)
         then char_of (n + 32) else c)"

definition lower :: "string \<Rightarrow> string" where
  "lower s = map lower_char s"

text \<open>
  Iterating over a text file gives its lines, each with its line feed; a last line
  without one is given as it is. \<open>file_lines_from acc s\<close> carries the line read so far.
\<close>

primrec file_lines_from :: "string \<Rightarrow> string \<Rightarrow> string list" where
  "file_lines_from acc [] = (if acc = [] then [] else [acc])"
| "file_lines_from acc (c # cs) =
     (if c = newline then (acc @ [c]) # file_lines_from [] cs
      else file_lines_from (acc @ [c]) cs)"

definition file_lines :: "string \<Rightarrow> string list" where
  "file_lines s = file_lines_from [] s"

section \<open>Paths: \<open>os.path\<close>\<close>

text \<open>\<open>str.rfind\<close> for one character: the last index where it stands, or \<open>-1\<close>.\<close>

fun find_from :: "char \<Rightarrow> string \<Rightarrow> nat option" where
  "find_from c [] = None"
| "find_from c (x # xs) = (if x = c then Some 0 else map_option Suc (find_from c xs))"

definition rfind :: "string \<Rightarrow> char \<Rightarrow> int" where
  "rfind p c = (case find_from c (rev p) of
                  None \<Rightarrow> - 1
                | Some k \<Rightarrow> int (length p) - 1 - int k)"

text \<open>The slices \<open>p[:i]\<close> and \<open>p[i:]\<close>, for an index that is not negative.\<close>

definition slice_to :: "string \<Rightarrow> int \<Rightarrow> string" where
  "slice_to p i = take (nat i) p"

definition slice_from :: "string \<Rightarrow> int \<Rightarrow> string" where
  "slice_from p i = drop (nat i) p"

text \<open>
  \<open>os.path.splitext\<close> (POSIX): the extension starts at the last dot after the last
  slash, unless only dots stand between that slash and the dot. The loop is the
  library's \<open>while filenameIndex < dotIndex\<close>.
\<close>

function splitext_loop :: "string \<Rightarrow> int \<Rightarrow> int \<Rightarrow> string \<times> string" where
  "splitext_loop p filenameIndex dotIndex =
     (if filenameIndex < dotIndex
      then (if p ! nat filenameIndex \<noteq> CHR ''.''
            then (slice_to p dotIndex, slice_from p dotIndex)
            else splitext_loop p (filenameIndex + 1) dotIndex)
      else (p, []))"
  by pat_completeness auto
termination
  by (relation "measure (\<lambda>(p, f, d). nat (d - f))") auto

declare splitext_loop.simps [simp del]

definition splitext :: "string \<Rightarrow> string \<times> string" where
  "splitext p =
     (let sepIndex = rfind p CHR ''/'';
          dotIndex = rfind p CHR ''.''
      in if dotIndex > sepIndex
         then splitext_loop p (sepIndex + 1) dotIndex
         else (p, []))"

text \<open>\<open>os.path.dirname\<close> (POSIX).\<close>

definition dirname :: "string \<Rightarrow> string" where
  "dirname p =
     (let i = rfind p CHR ''/'' + 1;
          head = slice_to p i
      in if head \<noteq> [] \<and> head \<noteq> replicate (length head) CHR ''/''
         then rev (dropWhile (\<lambda>c. c = CHR ''/'') (rev head))
         else head)"

text \<open>\<open>os.path.join\<close> (POSIX) of two parts.\<close>

definition os_path_join :: "string \<Rightarrow> string \<Rightarrow> string" where
  "os_path_join a b =
     (if startswith b ''/'' then b
      else if a = [] \<or> endswith a ''/'' then a @ b
      else a @ ''/'' @ b)"

text \<open>
  Splitting a text at a separator: \<open>n\<close> separators give \<open>n + 1\<close> pieces, none of them
  holding the separator.
\<close>

primrec split_from :: "char \<Rightarrow> string \<Rightarrow> string \<Rightarrow> string list" where
  "split_from sep acc [] = [acc]"
| "split_from sep acc (c # cs) =
     (if c = sep then acc # split_from sep [] cs else split_from sep (acc @ [c]) cs)"

text \<open>
  The names a path walks through, as the operating system resolves them: empty names and
  \<open>.\<close> are skipped. The model does not resolve \<open>..\<close> or symbolic links, and resolves a
  relative path from the root.
\<close>

definition components :: "string \<Rightarrow> string list" where
  "components p = filter (\<lambda>n. n \<noteq> [] \<and> n \<noteq> ''.'') (split_from CHR ''/'' [] p)"

section \<open>The file system\<close>

datatype node = Dir | File string

type_synonym fsys = "string list \<Rightarrow> node option"

text \<open>The errors of the \<open>OSError\<close> family that the model raises, and the exceptions.\<close>

datatype oserror =
  FileNotFoundError | FileExistsError | IsADirectoryError | NotADirectoryError
  | PermissionError

datatype exn = OSError oserror | CalledProcessError "string list" int

text \<open>The root is a directory; every other path is what the table says.\<close>

definition node_at :: "fsys \<Rightarrow> string list \<Rightarrow> node option" where
  "node_at f p = (if p = [] then Some Dir else f p)"

definition os_path_exists :: "fsys \<Rightarrow> string \<Rightarrow> bool" where
  "os_path_exists f p \<longleftrightarrow> node_at f (components p) \<noteq> None"

definition os_path_isdir :: "fsys \<Rightarrow> string \<Rightarrow> bool" where
  "os_path_isdir f p \<longleftrightarrow> node_at f (components p) = Some Dir"

text \<open>
  \<open>os.makedirs(path, exist_ok=True)\<close>: walking down the path, a directory that is there
  is entered, a missing one is made, and a regular file in the way is an error.
  \<open>makedirs_from done rest\<close> has walked \<open>done\<close>.
\<close>

primrec makedirs_from :: "string list \<Rightarrow> string list \<Rightarrow> fsys \<Rightarrow> oserror + fsys" where
  "makedirs_from done [] f = Inr f"
| "makedirs_from done (n # ns) f =
     (case f (done @ [n]) of
        Some Dir \<Rightarrow> makedirs_from (done @ [n]) ns f
      | Some (File _) \<Rightarrow> Inl (if ns = [] then FileExistsError else NotADirectoryError)
      | None \<Rightarrow> makedirs_from (done @ [n]) ns (f(done @ [n] \<mapsto> Dir)))"

definition os_makedirs :: "string \<Rightarrow> fsys \<Rightarrow> oserror + fsys" where
  "os_makedirs path f =
     (if path = [] then Inl FileNotFoundError else makedirs_from [] (components path) f)"

text \<open>
  \<open>os.replace(src, dst)\<close> for a regular file: the file takes the place of \<open>dst\<close>, which
  may be missing or a regular file, in a directory that is there. Moving a directory
  is not modelled: it is answered with an error.
\<close>

definition os_replace :: "string \<Rightarrow> string \<Rightarrow> fsys \<Rightarrow> oserror + fsys" where
  "os_replace src dst f =
     (case node_at f (components src) of
        None \<Rightarrow> Inl FileNotFoundError
      | Some Dir \<Rightarrow> Inl PermissionError
      | Some (File c) \<Rightarrow>
          (case node_at f (components dst) of
             Some Dir \<Rightarrow> Inl IsADirectoryError
           | _ \<Rightarrow>
             (if node_at f (butlast (components dst)) = Some Dir
              then Inr ((f(components src := None))(components dst \<mapsto> File c))
              else Inl FileNotFoundError)))"

text \<open>
  \<open>open(path, "r")\<close> and reading: the text of a regular file. The content of a file
  is kept as reading in text mode delivers it: decoded, every line end a line feed.
\<close>

definition open_read :: "fsys \<Rightarrow> string \<Rightarrow> oserror + string" where
  "open_read f path =
     (case node_at f (components path) of
        None \<Rightarrow> Inl FileNotFoundError
      | Some Dir \<Rightarrow> Inl IsADirectoryError
      | Some (File c) \<Rightarrow> Inr c)"

section \<open>The world of the program\<close>

datatype level = INFO | WARNING | ERROR

text \<open>
  What the program does to the outside, in order: a line printed, a record logged, a
  child process run, a file opened, a line asked from standard input.
\<close>

datatype event =
  Print string | Log level string | Exec "string list" | Open string | Readline

record world =
  fs :: fsys
  trace :: "event list"
  stdin :: "string list"

text \<open>How a function ends: it returns, it calls \<open>sys.exit\<close>, or it raises.\<close>

datatype 'a result = Returned 'a | SysExit int | Raised exn

text \<open>
  A child process either cannot be started or completes with an exit code and its two
  output texts. What the external tools do is a parameter of the model: from the
  command and the world when it starts, the process and the file system it leaves.
\<close>

datatype proc = NotStarted oserror | Completed int string string

type_synonym runner = "string list \<Rightarrow> world \<Rightarrow> proc \<times> fsys"

definition emit :: "event \<Rightarrow> world \<Rightarrow> world" where
  "emit e w = w\<lparr>trace := trace w @ [e]\<rparr>"

definition print :: "string \<Rightarrow> world \<Rightarrow> world" where
  "print s w = emit (Print s) w"

definition logging :: "level \<Rightarrow> string \<Rightarrow> world \<Rightarrow> world" where
  "logging l s w = emit (Log l s) w"

text \<open>\<open>sys.stdin.readline()\<close>: the next line, or the empty text at the end of input.\<close>

definition readline :: "world \<Rightarrow> string \<times> world" where
  "readline w =
     (case stdin w of
        [] \<Rightarrow> ([], emit Readline w)
      | l # ls \<Rightarrow> (l, emit Readline (w\<lparr>stdin := ls\<rparr>)))"

text \<open>
  \<open>subprocess.run(cmd, stdout=PIPE, stderr=PIPE, text=True, check=...)\<close>: with
  \<open>check\<close>, an exit code other than 0 raises \<open>CalledProcessError\<close>.
\<close>

definition subprocess_run ::
  "runner \<Rightarrow> string list \<Rightarrow> bool \<Rightarrow> world \<Rightarrow> (exn + int \<times> string \<times> string) \<times> world" where
  "subprocess_run run cmd check w =
     (case run cmd w of
        (NotStarted e, f') \<Rightarrow> (Inl (OSError e), emit (Exec cmd) w)
      | (Completed rc out err, f') \<Rightarrow>
          (if check \<and> rc \<noteq> 0
           then (Inl (CalledProcessError cmd rc), emit (Exec cmd) (w\<lparr>fs := f'\<rparr>))
           else (Inr (rc, out, err), emit (Exec cmd) (w\<lparr>fs := f'\<rparr>))))"

text \<open>
  The text of an exception in a message. The model keeps the class name where Python
  gives the full text of the error.
\<close>

fun oserror_text :: "oserror \<Rightarrow> string" where
  "oserror_text FileNotFoundError = ''FileNotFoundError''"
| "oserror_text FileExistsError = ''FileExistsError''"
| "oserror_text IsADirectoryError = ''IsADirectoryError''"
| "oserror_text NotADirectoryError = ''NotADirectoryError''"
| "oserror_text PermissionError = ''PermissionError''"

fun exn_text :: "exn \<Rightarrow> string" where
  "exn_text (OSError e) = oserror_text e"
| "exn_text (CalledProcessError cmd rc) = ''CalledProcessError''"

section \<open>The program\<close>

subsection \<open>\<open>check_ffmpeg\<close>\<close>

definition check_ffmpeg :: "runner \<Rightarrow> world \<Rightarrow> bool result \<times> world" where
  "check_ffmpeg run w =
     (case subprocess_run run [''ffmpeg'', ''-version''] True w of
        (Inr _, w') \<Rightarrow> (Returned True, w')
      | (Inl (CalledProcessError c rc), w') \<Rightarrow> (Returned False, w')
      | (Inl (OSError e), w') \<Rightarrow> (Raised (OSError e), w'))"

subsection \<open>\<open>create_output_directory\<close>\<close>

definition create_output_directory :: "string \<Rightarrow> world \<Rightarrow> unit result \<times> world" where
  "create_output_directory output_directory w =
     (case os_makedirs output_directory (fs w) of
        Inr f' \<Rightarrow> (Returned (), w\<lparr>fs := f'\<rparr>)
      | Inl e \<Rightarrow>
          (SysExit 1, print (''Error creating output directory: '' @ oserror_text e) w))"

subsection \<open>\<open>strip_metadata\<close>\<close>

definition stripped_file_path :: "string \<Rightarrow> string" where
  "stripped_file_path file_path = file_path @ ''_stripped'' @ snd (splitext file_path)"

definition ffmpeg_cmd :: "string \<Rightarrow> string list" where
  "ffmpeg_cmd file_path =
     [''ffmpeg'', ''-hide_banner'', ''-i'', file_path, ''-map_metadata'', ''-1'',
      ''-c:v'', ''copy'', ''-c:a'', ''copy'', ''-y'', stripped_file_path file_path]"

text \<open>The two \<open>except\<close> clauses of \<open>strip_metadata\<close>: every exception ends in the log.\<close>

definition strip_handler :: "string \<Rightarrow> exn \<Rightarrow> world \<Rightarrow> world" where
  "strip_handler file_path e w =
     (case e of
        OSError FileNotFoundError \<Rightarrow>
          logging ERROR (''File not found for metadata stripping: '' @ file_path) w
      | _ \<Rightarrow> logging ERROR (''Error stripping metadata: '' @ exn_text e) w)"

definition strip_metadata :: "runner \<Rightarrow> string \<Rightarrow> world \<Rightarrow> world" where
  "strip_metadata run file_path w =
     (case subprocess_run run (ffmpeg_cmd file_path) False w of
        (Inl e, w1) \<Rightarrow> strip_handler file_path e w1
      | (Inr (rc, out, err), w1) \<Rightarrow>
          (if rc = 0
           then (case os_replace (stripped_file_path file_path) file_path (fs w1) of
                   Inl e \<Rightarrow> strip_handler file_path (OSError e) w1
                 | Inr f' \<Rightarrow>
                     logging INFO (''Metadata successfully stripped for: '' @ file_path)
                       (w1\<lparr>fs := f'\<rparr>))
           else
             (let w2 = logging WARNING
                         (''FFmpeg encountered a non-critical issue while stripping metadata: ''
                          @ err) w1
              in if os_path_exists (fs w2) (stripped_file_path file_path)
                 then (case os_replace (stripped_file_path file_path) file_path (fs w2) of
                         Inl e \<Rightarrow> strip_handler file_path (OSError e) w2
                       | Inr f' \<Rightarrow> w2\<lparr>fs := f'\<rparr>)
                 else w2)))"

subsection \<open>\<open>download_youtube_media\<close>\<close>

text \<open>
  \<open>re.search(r"\[download\] Destination: (.+)", stdout)\<close>: the leftmost place where the
  announcement stands with at least one character other than a line feed after it; the
  group is every character from there to the end of the line.
\<close>

definition announcement :: string where
  "announcement = ''[download] Destination: ''"

definition match_here :: "string \<Rightarrow> string option" where
  "match_here s =
     (if startswith s announcement
      then (let g = takeWhile (\<lambda>c. c \<noteq> newline) (drop (length announcement) s)
            in if g = [] then None else Some g)
      else None)"

fun re_search_destination :: "string \<Rightarrow> string option" where
  "re_search_destination [] = match_here []"
| "re_search_destination (c # cs) =
     (case match_here (c # cs) of
        Some g \<Rightarrow> Some g
      | None \<Rightarrow> re_search_destination cs)"

definition output_directory_for :: "string \<Rightarrow> bool \<Rightarrow> string" where
  "output_directory_for base_output_directory audio_only =
     os_path_join base_output_directory (if audio_only then ''Audio'' else ''Video'')"

definition ytdlp_cmd :: "string \<Rightarrow> string \<Rightarrow> bool \<Rightarrow> string list" where
  "ytdlp_cmd url output_directory audio_only =
     [''yt-dlp'', ''-f'', (if audio_only then ''bestaudio'' else ''bestvideo+bestaudio/best''),
      ''--output'', os_path_join output_directory ''%(title)s.%(ext)s'',
      ''--restrict-filenames'', ''--no-mtime'', ''--no-embed-metadata'', ''--no-progress'',
      url]
     @ (if audio_only then [''--extract-audio'', ''--audio-format'', ''mp3'']
        else [''--merge-output-format'', ''mp4''])"

text \<open>What follows a downloader run that exited with 0: lines 172 to 192.\<close>

definition after_download :: "runner \<Rightarrow> string \<Rightarrow> string \<Rightarrow> string \<Rightarrow> world \<Rightarrow> world" where
  "after_download run url out err w =
     (let w1 = logging INFO (''yt-dlp stdout: '' @ out) w;
          w2 = logging INFO (''yt-dlp stderr: '' @ err) w1
      in case re_search_destination out of
           Some final_file_path \<Rightarrow>
             (let w3 = logging INFO (''Download completed successfully: '' @ final_file_path) w2;
                  w4 = strip_metadata run final_file_path w3
              in print (''Media downloaded and metadata stripped successfully for URL: '' @ url)
                   w4)
         | None \<Rightarrow>
             (let w3 = print (''Failed to locate the final file for URL: '' @ url
                              @ ''. Check log for details.'') w2
              in logging WARNING
                   (''Could not locate final file in yt-dlp output for URL: '' @ url) w3))"

definition download_youtube_media ::
  "runner \<Rightarrow> string \<Rightarrow> string \<Rightarrow> bool \<Rightarrow> world \<Rightarrow> unit result \<times> world" where
  "download_youtube_media run url base_output_directory audio_only w =
     (let output_directory = output_directory_for base_output_directory audio_only
      in case create_output_directory output_directory w of
           (Returned u, w1) \<Rightarrow>
             (let w2 = logging INFO (''Downloading started for URL: '' @ url @ '' to ''
                                     @ output_directory) w1
              in case subprocess_run run (ytdlp_cmd url output_directory audio_only) True w2 of
                   (Inr (rc, out, err), w3) \<Rightarrow> (Returned (), after_download run url out err w3)
                 | (Inl (CalledProcessError c rc), w3) \<Rightarrow>
                     (let w4 = logging ERROR (''An error occurred while downloading: ''
                                  @ exn_text (CalledProcessError c rc)) w3
                      in (Returned (),
                          print (''Error: Failed to download URL: '' @ url
                                 @ ''. Check the log for more details.'') w4))
                 | (Inl (OSError e), w3) \<Rightarrow> (Raised (OSError e), w3))
         | (SysExit n, w1) \<Rightarrow> (SysExit n, w1)
         | (Raised e, w1) \<Rightarrow> (Raised e, w1))"

subsection \<open>\<open>process_input\<close>\<close>

definition process_input :: "string \<Rightarrow> world \<Rightarrow> string list result \<times> world" where
  "process_input input_str w =
     (if startswith input_str ''http'' then (Returned [input_str], w)
      else if endswith (lower input_str) ''.txt''
      then (case open_read (fs w) input_str of
              Inl e \<Rightarrow> (Raised (OSError e), emit (Open input_str) w)
            | Inr text \<Rightarrow>
                (let urls = map strip (filter (\<lambda>line. strip line \<noteq> []) (file_lines text));
                     w1 = emit (Open input_str) w
                 in if urls = []
                    then (SysExit 1,
                          print ''Error: The .txt file does not contain valid URLs.'' w1)
                    else (Returned urls, w1)))
      else (SysExit 1, print ''Error: Unknown input format.'' w))"

subsection \<open>The main program\<close>

text \<open>The loop over the URLs: an exit or an exception that leaves a download ends it.\<close>

fun download_all :: "runner \<Rightarrow> string list \<Rightarrow> string \<Rightarrow> bool \<Rightarrow> world \<Rightarrow> unit result \<times> world"
  where
  "download_all run [] output_directory audio_only w = (Returned (), w)"
| "download_all run (url # urls) output_directory audio_only w =
     (case download_youtube_media run url output_directory audio_only w of
        (Returned u, w') \<Rightarrow> download_all run urls output_directory audio_only w'
      | (SysExit n, w') \<Rightarrow> (SysExit n, w')
      | (Raised e, w') \<Rightarrow> (Raised e, w'))"

text \<open>The first question, lines 231 to 237: three lines printed, one line read.\<close>

definition read_source :: "world \<Rightarrow> string \<times> world" where
  "read_source w =
     (let w1 = print ''YouTube Media Downloader using yt-dlp'' w;
          w2 = print
     ''Provide a single URL, or a .txt file containing a list of URLs. Example: `url_list.txt`''
                 w1;
          w3 = print ''Enter the video URL or path to a .txt file:'' w2;
          (line, w4) = readline w3
      in (strip line, w4))"

text \<open>The second question, lines 242 to 244.\<close>

definition read_choice :: "world \<Rightarrow> string \<times> world" where
  "read_choice w =
     (let w1 = print ''Do you want to download the full (V)ideo or (A)udio only? (V/A):'' w;
          (line, w2) = readline w1
      in (lower (strip line), w2))"

text \<open>
  The two questions and the loop, lines 231 to 259. \<open>Returned ()\<close> is the end of the
  script: the process ends with exit status 0.
\<close>

definition ask_and_download :: "runner \<Rightarrow> string \<Rightarrow> world \<Rightarrow> unit result \<times> world" where
  "ask_and_download run script_directory w =
     (case read_source w of
        (user_input, w1) \<Rightarrow>
          (case process_input user_input w1 of
             (Returned urls_to_process, w2) \<Rightarrow>
               (case read_choice w2 of
                  (media_choice_input, w3) \<Rightarrow>
                    (let output_directory = os_path_join script_directory ''YouTube_downloads''
                     in if media_choice_input = ''a''
                        then download_all run urls_to_process output_directory True w3
                        else if media_choice_input = ''v''
                        then download_all run urls_to_process output_directory False w3
                        else (SysExit 1,
                              print
                                ''Invalid choice. Please enter 'V' for video or 'A' for audio.''
                                w3)))
           | (SysExit n, w2) \<Rightarrow> (SysExit n, w2)
           | (Raised e, w2) \<Rightarrow> (Raised e, w2)))"

definition main :: "runner \<Rightarrow> string \<Rightarrow> world \<Rightarrow> unit result \<times> world" where
  "main run script_directory w =
     (case check_ffmpeg run w of
        (Returned ok, w1) \<Rightarrow>
          (if \<not> ok then (SysExit 1, print ''Error: FFmpeg not installed.'' w1)
           else ask_and_download run script_directory w1)
      | (SysExit n, w1) \<Rightarrow> (SysExit n, w1)
      | (Raised e, w1) \<Rightarrow> (Raised e, w1))"


section \<open>Notions of the specification, and sample worlds\<close>

text \<open>
  Whether a path has an extension for \<open>splitext\<close>: the last dot stands after the last
  slash, with a character other than a dot between them.
\<close>

definition has_ext :: "string \<Rightarrow> bool" where
  "has_ext p \<longleftrightarrow> rfind p CHR ''/'' < rfind p CHR ''.'' \<and>
     (\<exists>i. rfind p CHR ''/'' + 1 \<le> i \<and> i < rfind p CHR ''.'' \<and> p ! nat i \<noteq> CHR ''.'')"

text \<open>A world with an empty file system, nothing done yet and no input waiting.\<close>

definition empty_world :: world where
  "empty_world = \<lparr>fs = Map.empty, trace = [], stdin = []\<rparr>"

text \<open>A user who enters the name of a list file, \<open>urls.TXT\<close>, where no file is.\<close>

definition list_asking_world :: world where
  "list_asking_world =
     \<lparr>fs = Map.empty, trace = [], stdin = [''urls.TXT'' @ [newline]]\<rparr>"

text \<open>A machine without the media processor: starting \<open>ffmpeg\<close> fails.\<close>

definition ffmpeg_missing :: runner where
  "ffmpeg_missing cmd w =
     (if take 1 cmd = [''ffmpeg''] then (NotStarted FileNotFoundError, fs w)
      else (Completed 0 [] [], fs w))"

text \<open>
  The lines of a text, without their line feeds; a line is blank when it holds nothing
  but whitespace.
\<close>

definition text_lines :: "string \<Rightarrow> string list" where
  "text_lines s = split_from newline [] s"

definition blank :: "string \<Rightarrow> bool" where
  "blank l \<longleftrightarrow> list_all isspace l"

definition non_blank_lines :: "string \<Rightarrow> string list" where
  "non_blank_lines s = filter (\<lambda>l. \<not> blank l) (text_lines s)"

text \<open>A world whose file system holds one list file, \<open>urls.txt\<close>, with the given text.\<close>

definition list_file_world :: "string \<Rightarrow> world" where
  "list_file_world text = \<lparr>fs = [[''urls.txt''] \<mapsto> File text], trace = [], stdin = []\<rparr>"

definition sample_list_text :: string where
  "sample_list_text =
     ''  https://a.example/1  '' @ [newline, newline] @ ''https://b.example/2'' @ [newline]"

definition blank_list_text :: string where
  "blank_list_text = '' '' @ [newline, newline] @ ''  '' @ [newline]"

text \<open>Every name on the way from \<open>done\<close> down through \<open>rest\<close> is a directory.\<close>

primrec all_dirs :: "string list \<Rightarrow> string list \<Rightarrow> fsys \<Rightarrow> bool" where
  "all_dirs done [] f = True"
| "all_dirs done (n # ns) f = (f (done @ [n]) = Some Dir \<and> all_dirs (done @ [n]) ns f)"

text \<open>The world after the output directory \<open>/srv/dl/Video\<close> was made in an empty one.\<close>

definition made_world :: world where
  "made_world =
     snd (create_output_directory (output_directory_for ''/srv/dl'' False) empty_world)"

text \<open>
  A world with one media file, \<open>/d/x.mp4\<close>, and three media processors: one exits with 1
  and leaves the temporary file, one exits with 1 and leaves nothing, one exits with 0
  and leaves the temporary file.
\<close>

definition media_world :: world where
  "media_world =
     \<lparr>fs = [[''d''] \<mapsto> Dir, [''d'', ''x.mp4''] \<mapsto> File ''tagged''], trace = [], stdin = []\<rparr>"

definition tool_warns_with_temp :: runner where
  "tool_warns_with_temp cmd w =
     (Completed 1 [] ''no metadata'', (fs w)([''d'', ''x.mp4_stripped.mp4''] \<mapsto> File ''clean''))"

definition tool_warns_without_temp :: runner where
  "tool_warns_without_temp cmd w = (Completed 1 [] ''no such file'', fs w)"

definition tool_succeeds :: runner where
  "tool_succeeds cmd w =
     (Completed 0 [] [], (fs w)([''d'', ''x.mp4_stripped.mp4''] \<mapsto> File ''clean''))"

text \<open>
  The world right after a media processor run that exited with a code other than 0:
  the command is in the trace, the file system is what the tool left, and the warning
  of line 107 is logged.
\<close>

definition nonzero_warning :: "string \<Rightarrow> string \<Rightarrow> fsys \<Rightarrow> world \<Rightarrow> world" where
  "nonzero_warning file_path err f' w =
     logging WARNING
       (''FFmpeg encountered a non-critical issue while stripping metadata: '' @ err)
       (emit (Exec (ffmpeg_cmd file_path)) (w\<lparr>fs := f'\<rparr>))"

text \<open>
  A destination line read strictly: a line that is the announcement followed by a path
  that is not empty. The first such line of an output, and the path it announces.
\<close>

definition destination_line :: "string \<Rightarrow> bool" where
  "destination_line l \<longleftrightarrow> startswith l announcement \<and> length announcement < length l"

definition first_destination_line :: "string \<Rightarrow> string option" where
  "first_destination_line out = find destination_line (text_lines out)"

definition announced_path :: "string \<Rightarrow> string" where
  "announced_path l = drop (length announcement) l"

text \<open>
  A destination line read as the pattern is searched: the announcement stands somewhere
  in the line, at index \<open>i\<close>, with at least one character after it. The capture of a line
  is what follows the first such place; the capture of an output is that of its first
  line that has one.
\<close>

definition occurs_at :: "string \<Rightarrow> nat \<Rightarrow> bool" where
  "occurs_at l i \<longleftrightarrow>
     take (length announcement) (drop i l) = announcement
     \<and> i + length announcement < length l"

definition capture_in_line :: "string \<Rightarrow> string option" where
  "capture_in_line l =
     (case find (occurs_at l) [0..<length l] of
        None \<Rightarrow> None
      | Some i \<Rightarrow> Some (drop (i + length announcement) l))"

definition first_capture :: "string \<Rightarrow> string option" where
  "first_capture out =
     (case find (\<lambda>l. capture_in_line l \<noteq> None) (text_lines out) of
        None \<Rightarrow> None
      | Some l \<Rightarrow> capture_in_line l)"

text \<open>The paths given to the media processor for stripping, in the order of the calls.\<close>

definition stripper_inputs :: "world \<Rightarrow> string list" where
  "stripper_inputs w =
     concat (map (\<lambda>e. case e of
                         Exec c \<Rightarrow> (if take 3 c = [''ffmpeg'', ''-hide_banner'', ''-i'']
                                    then take 1 (drop 3 c) else [])
                       | _ \<Rightarrow> [])
                 (trace w))"

text \<open>
  Tools of which the downloader exits with 0 after printing the given text, and the
  media processor exits with 0 and leaves nothing.
\<close>

definition downloader_prints :: "string \<Rightarrow> runner" where
  "downloader_prints out cmd w =
     (if take 1 cmd = [''yt-dlp''] then (Completed 0 out [], fs w)
      else (Completed 0 [] [], fs w))"

text \<open>
  Two outputs: one whose first line holds the announcement after another character and
  whose second line is a destination line, and one that is that first line alone.
\<close>

definition misleading_output :: string where
  "misleading_output =
     ''x[download] Destination: a'' @ [newline] @ ''[download] Destination: b''"

definition midline_output :: string where
  "midline_output = ''x[download] Destination: a''"

text \<open>
  The world after a downloader run that exited with 0, once its two outputs are logged
  (lines 138 to 174): \<open>w1\<close> is the world after the output directory was made, \<open>f'\<close> the
  file system the downloader left.
\<close>

definition fetched_world ::
  "string \<Rightarrow> string \<Rightarrow> bool \<Rightarrow> string \<Rightarrow> string \<Rightarrow> fsys \<Rightarrow> world \<Rightarrow> world" where
  "fetched_world url output_directory audio_only out err f' w1 =
     logging INFO (''yt-dlp stderr: '' @ err)
       (logging INFO (''yt-dlp stdout: '' @ out)
          (emit (Exec (ytdlp_cmd url output_directory audio_only))
             ((logging INFO (''Downloading started for URL: '' @ url @ '' to ''
                            @ output_directory) w1)\<lparr>fs := f'\<rparr>)))"

text \<open>
  What a run shows: the lines printed for the user, the records logged above level
  \<open>INFO\<close>, and the URLs given to the downloader, each in order.
\<close>

definition printed :: "world \<Rightarrow> string list" where
  "printed w = concat (map (\<lambda>e. case e of Print s \<Rightarrow> [s] | _ \<Rightarrow> []) (trace w))"

definition alerts :: "world \<Rightarrow> (level \<times> string) list" where
  "alerts w =
     concat (map (\<lambda>e. case e of Log l s \<Rightarrow> (if l = INFO then [] else [(l, s)]) | _ \<Rightarrow> [])
                 (trace w))"

definition downloader_urls :: "world \<Rightarrow> string list" where
  "downloader_urls w =
     concat (map (\<lambda>e. case e of
                         Exec c \<Rightarrow> (if take 1 c = [''yt-dlp''] then take 1 (drop 9 c) else [])
                       | _ \<Rightarrow> [])
                 (trace w))"

text \<open>
  Stripping goes through when the media processor starts, exits with 0, and the
  temporary file can take the place of the input.
\<close>

definition strip_ok :: "runner \<Rightarrow> string \<Rightarrow> world \<Rightarrow> bool" where
  "strip_ok run file_path w =
     (case run (ffmpeg_cmd file_path) w of
        (NotStarted e, f') \<Rightarrow> False
      | (Completed rc out err, f') \<Rightarrow>
          rc = 0 \<and>
          (case os_replace (stripped_file_path file_path) file_path f' of
             Inl e \<Rightarrow> False | Inr f'' \<Rightarrow> True))"

text \<open>
  Tools for a batch of three: the downloader fails on the second URL and otherwise
  writes \<open>/srv/dl/Video/clip.mp4\<close> and announces it; the media processor writes the
  temporary file and exits with 0.
\<close>

definition second_fetch_fails :: runner where
  "second_fetch_fails cmd w =
     (if take 1 cmd = [''yt-dlp'']
      then (if take 1 (drop 9 cmd) = [''https://e.example/2'']
            then (Completed 1 [] ''ERROR: unavailable'', fs w)
            else (Completed 0 (''[download] Destination: /srv/dl/Video/clip.mp4'' @ [newline]) [],
                  (fs w)([''srv'', ''dl'', ''Video'', ''clip.mp4''] \<mapsto> File ''tagged'')))
      else if take 2 cmd = [''ffmpeg'', ''-hide_banner'']
      then (Completed 0 [] [],
            (fs w)([''srv'', ''dl'', ''Video'', ''clip.mp4_stripped.mp4''] \<mapsto> File ''clean''))
      else (Completed 0 [] [], fs w))"

definition three_urls :: "string list" where
  "three_urls = [''https://e.example/1'', ''https://e.example/2'', ''https://e.example/3'']"

text \<open>
  Tools of which the downloader announces \<open>/srv/dl/Video/clip.mp4\<close> without leaving a
  file there, and the media processor, finding no input, exits with 1 and writes nothing.
\<close>

definition announcing_output :: string where
  "announcing_output = ''[download] Destination: /srv/dl/Video/clip.mp4'' @ [newline]"

definition stripper_fails :: runner where
  "stripper_fails cmd w =
     (if take 1 cmd = [''yt-dlp''] then (Completed 0 announcing_output [], fs w)
      else (Completed 1 [] ''/srv/dl/Video/clip.mp4: No such file or directory'', fs w))"

text \<open>The second world comes after the first: its trace goes on from the first's.\<close>

definition extends :: "world \<Rightarrow> world \<Rightarrow> bool" where
  "extends w w' \<longleftrightarrow> (\<exists>es. trace w' = trace w @ es)"

text \<open>
  A machine with the media processor and without the downloader, and a user who enters
  one URL and chooses video.
\<close>

definition downloader_missing :: runner where
  "downloader_missing cmd w =
     (if take 1 cmd = [''yt-dlp''] then (NotStarted FileNotFoundError, fs w)
      else (Completed 0 [] [], fs w))"

definition asking_world :: world where
  "asking_world =
     \<lparr>fs = Map.empty, trace = [],
      stdin = [''https://e.example/1'' @ [newline], ''v'' @ [newline]]\<rparr>"

text \<open>A media processor that is there and answers the version query with exit code 1.\<close>

definition ffmpeg_broken :: runner where
  "ffmpeg_broken cmd w = (Completed 1 [] ''cannot load library'', fs w)"

section \<open>The temporary path of \<open>strip_metadata\<close>\<close>

lemma find_from_None: "find_from c xs = None \<longleftrightarrow> c \<notin> set xs"
  by (induction xs) auto

lemma find_from_append_hit:
  "c \<notin> set a \<Longrightarrow> find_from c (a @ c # b) = Some (length a)"
  by (induction a) auto

lemma rfind_absent: "c \<notin> set p \<Longrightarrow> rfind p c = - 1"
  by (simp add: rfind_def find_from_None [THEN iffD2])

lemma rfind_last: "c \<notin> set b \<Longrightarrow> rfind (a @ c # b) c = int (length a)"
proof -
  assume h: "c \<notin> set b"
  have "find_from c (rev b @ c # rev a) = Some (length (rev b))"
    using h by (intro find_from_append_hit) simp
  then show ?thesis by (simp add: rfind_def)
qed

lemma rfind_cases:
  obtains (absent) "c \<notin> set p" "rfind p c = - 1"
  | (present) a b where "p = a @ c # b" "c \<notin> set b" "rfind p c = int (length a)"
proof (cases "c \<in> set p")
  case False
  then show ?thesis using absent rfind_absent by blast
next
  case True
  then obtain a b where ab: "p = a @ c # b" "c \<notin> set b"
    using split_list_last by fastforce
  then show ?thesis using present rfind_last by blast
qed

lemma rfind_append_other: "c \<notin> set s \<Longrightarrow> rfind (p @ s) c = rfind p c"
proof (cases p c rule: rfind_cases)
  case absent
  assume "c \<notin> set s"
  with absent show ?thesis by (simp add: rfind_absent)
next
  case (present a b)
  assume "c \<notin> set s"
  with present have "rfind (a @ c # (b @ s)) c = int (length a)"
    by (intro rfind_last) simp
  with present show ?thesis by simp
qed

lemma rfind_bounds: "- 1 \<le> rfind p c \<and> rfind p c < int (length p)"
  by (cases p c rule: rfind_cases) auto

lemma drop_rfind:
  assumes "0 \<le> rfind p c"
  shows "\<exists>e. slice_from p (rfind p c) = c # e \<and> c \<notin> set e
              \<and> p = slice_to p (rfind p c) @ c # e"
  using assms by (cases p c rule: rfind_cases) (auto simp: slice_from_def slice_to_def)

lemma slice_from_append: "slice_from (a @ b) (int (length a)) = b"
  by (simp add: slice_from_def)

text \<open>The loop of \<open>splitext\<close> looks for a character other than a dot.\<close>

lemma splitext_loop_eq:
  "0 \<le> f \<Longrightarrow> splitext_loop p f d =
     (if \<exists>i. f \<le> i \<and> i < d \<and> p ! nat i \<noteq> CHR ''.''
      then (slice_to p d, slice_from p d) else (p, []))"
proof (induction p f d rule: splitext_loop.induct)
  case (1 p f d)
  show ?case
  proof (cases "f < d")
    case False
    then show ?thesis by (subst splitext_loop.simps) auto
  next
    case lt: True
    show ?thesis
    proof (cases "p ! nat f \<noteq> CHR ''.''")
      case True
      with lt show ?thesis by (subst splitext_loop.simps) auto
    next
      case False
      have step: "(\<exists>i. f \<le> i \<and> i < d \<and> p ! nat i \<noteq> CHR ''.'') \<longleftrightarrow>
                  (\<exists>i. f + 1 \<le> i \<and> i < d \<and> p ! nat i \<noteq> CHR ''.'')"
      proof
        assume "\<exists>i. f \<le> i \<and> i < d \<and> p ! nat i \<noteq> CHR ''.''"
        then obtain i where i: "f \<le> i" "i < d" "p ! nat i \<noteq> CHR ''.''" by blast
        with False have "i \<noteq> f" by auto
        with i show "\<exists>i. f + 1 \<le> i \<and> i < d \<and> p ! nat i \<noteq> CHR ''.''"
          by (intro exI [of _ i]) simp
      next
        assume "\<exists>i. f + 1 \<le> i \<and> i < d \<and> p ! nat i \<noteq> CHR ''.''"
        then obtain i where "f + 1 \<le> i" "i < d" "p ! nat i \<noteq> CHR ''.''" by blast
        then show "\<exists>i. f \<le> i \<and> i < d \<and> p ! nat i \<noteq> CHR ''.''"
          by (intro exI [of _ i]) simp
      qed
      have "splitext_loop p f d = splitext_loop p (f + 1) d"
        using lt False by (subst splitext_loop.simps) simp
      also have "\<dots> = (if \<exists>i. f + 1 \<le> i \<and> i < d \<and> p ! nat i \<noteq> CHR ''.''
                        then (slice_to p d, slice_from p d) else (p, []))"
        using "1.IH" [OF lt] False "1.prems" by simp
      finally show ?thesis using step by simp
    qed
  qed
qed

lemma splitext_eq:
  "splitext p = (if has_ext p
                 then (slice_to p (rfind p CHR ''.''), slice_from p (rfind p CHR ''.''))
                 else (p, []))"
proof -
  have "0 \<le> rfind p CHR ''/'' + 1" using rfind_bounds [of p "CHR ''/''"] by simp
  then show ?thesis by (auto simp: splitext_def Let_def splitext_loop_eq has_ext_def)
qed

text \<open>An extension is empty, or a dot followed by characters that are no dot and no slash.\<close>

lemma ext_shape:
  "snd (splitext p) = [] \<or>
   (\<exists>e. snd (splitext p) = CHR ''.'' # e \<and> CHR ''.'' \<notin> set e \<and> CHR ''/'' \<notin> set e)"
proof (cases "has_ext p")
  case False
  then show ?thesis by (simp add: splitext_eq)
next
  case True
  have nn: "0 \<le> rfind p CHR ''/'' + 1" using rfind_bounds [of p "CHR ''/''"] by simp
  then have d0: "0 \<le> rfind p CHR ''.''" using True unfolding has_ext_def by linarith
  from drop_rfind [OF d0] obtain e where
    e: "slice_from p (rfind p CHR ''.'') = CHR ''.'' # e" "CHR ''.'' \<notin> set e"
       "p = slice_to p (rfind p CHR ''.'') @ CHR ''.'' # e" by blast
  have "CHR ''/'' \<notin> set e"
  proof
    assume "CHR ''/'' \<in> set e"
    then obtain u v where uv: "e = u @ CHR ''/'' # v" "CHR ''/'' \<notin> set v"
      using split_list_last by fastforce
    have "rfind ((slice_to p (rfind p CHR ''.'') @ CHR ''.'' # u) @ CHR ''/'' # v) CHR ''/''
            = int (length (slice_to p (rfind p CHR ''.'') @ CHR ''.'' # u))"
      using uv(2) by (rule rfind_last)
    moreover have "(slice_to p (rfind p CHR ''.'') @ CHR ''.'' # u) @ CHR ''/'' # v = p"
      using e(3) uv(1) by simp
    moreover have "length (slice_to p (rfind p CHR ''.'')) = nat (rfind p CHR ''.'')"
      using rfind_bounds [of p "CHR ''.''"] d0 by (simp add: slice_to_def)
    ultimately have "rfind p CHR ''/'' > rfind p CHR ''.''"
      using d0 by simp
    with True show False unfolding has_ext_def by simp
  qed
  moreover have "snd (splitext p) = slice_from p (rfind p CHR ''.'')"
    using True by (simp add: splitext_eq)
  ultimately show ?thesis using e by simp
qed

lemma has_ext_nonempty: "has_ext p \<Longrightarrow> snd (splitext p) \<noteq> []"
proof -
  assume h: "has_ext p"
  then have "0 \<le> rfind p CHR ''.''"
    using rfind_bounds [of p "CHR ''/''"] by (simp add: has_ext_def)
  from drop_rfind [OF this] h show ?thesis by (auto simp: splitext_eq)
qed

lemma ext_stable:
  "snd (splitext (p @ ''_stripped'' @ snd (splitext p))) = snd (splitext p)"
proof -
  let ?s = "''_stripped''"
  let ?e = "snd (splitext p)"
  let ?t = "p @ ?s @ ?e"
  have shape: "?e = [] \<or> (\<exists>e. ?e = CHR ''.'' # e \<and> CHR ''.'' \<notin> set e \<and> CHR ''/'' \<notin> set e)"
    by (rule ext_shape)
  then have "CHR ''/'' \<notin> set (?s @ ?e)" by auto
  then have sl: "rfind ?t CHR ''/'' = rfind p CHR ''/''" by (rule rfind_append_other)
  have bs: "- 1 \<le> rfind p CHR ''/''" "rfind p CHR ''/'' < int (length p)"
    using rfind_bounds [of p "CHR ''/''"] by simp_all
  have bd: "rfind p CHR ''.'' < int (length p)"
    using rfind_bounds [of p "CHR ''.''"] by simp
  show ?thesis
  proof (cases "has_ext p")
    case False
    then have e0: "?e = []" by (simp add: splitext_eq)
    then have t: "?t = p @ ?s" by simp
    have "CHR ''.'' \<notin> set ?s" by simp
    then have d: "rfind (p @ ?s) CHR ''.'' = rfind p CHR ''.''" by (rule rfind_append_other)
    have "\<not> has_ext (p @ ?s)"
    proof
      assume "has_ext (p @ ?s)"
      then obtain i where i: "rfind p CHR ''/'' < rfind p CHR ''.''"
          "rfind p CHR ''/'' + 1 \<le> i" "i < rfind p CHR ''.''" "(p @ ?s) ! nat i \<noteq> CHR ''.''"
        using sl d t unfolding has_ext_def by auto
      from i(2,3) bs(1) bd have "nat i < length p" by arith
      then have "(p @ ?s) ! nat i = p ! nat i" by (simp add: nth_append)
      with i have "has_ext p" unfolding has_ext_def by auto
      with False show False ..
    qed
    then show ?thesis using e0 t by (simp add: splitext_eq)
  next
    case True
    then have "?e \<noteq> []" by (rule has_ext_nonempty)
    with shape obtain e where e: "?e = CHR ''.'' # e" "CHR ''.'' \<notin> set e" by auto
    have t: "?t = (p @ ?s) @ CHR ''.'' # e" using e by simp
    have d: "rfind ?t CHR ''.'' = int (length (p @ ?s))"
      unfolding t using e(2) by (rule rfind_last)
    from True obtain i where i: "rfind p CHR ''/'' + 1 \<le> i" "i < rfind p CHR ''.''"
        "p ! nat i \<noteq> CHR ''.''"
      unfolding has_ext_def by auto
    from i(1,2) bs(1) bd have "nat i < length p" by arith
    then have "?t ! nat i = p ! nat i" by (simp add: nth_append)
    with i bd have "rfind ?t CHR ''/'' + 1 \<le> i \<and> i < rfind ?t CHR ''.'' \<and> ?t ! nat i \<noteq> CHR ''.''"
      unfolding sl d by simp
    moreover have "rfind ?t CHR ''/'' < rfind ?t CHR ''.''"
      unfolding sl d using bs by simp
    ultimately have "has_ext ?t" unfolding has_ext_def by blast
    then have "snd (splitext ?t) = slice_from ?t (rfind ?t CHR ''.'')"
      by (simp add: splitext_eq)
    also have "\<dots> = CHR ''.'' # e"
      unfolding d unfolding t by (rule slice_from_append)
    finally show ?thesis using e by simp
  qed
qed

lemma dirname_stable:
  "dirname (p @ ''_stripped'' @ snd (splitext p)) = dirname p"
proof -
  let ?x = "''_stripped'' @ snd (splitext p)"
  have "CHR ''/'' \<notin> set ?x" using ext_shape [of p] by auto
  then have sl: "rfind (p @ ?x) CHR ''/'' = rfind p CHR ''/''" by (rule rfind_append_other)
  have "nat (rfind p CHR ''/'' + 1) \<le> length p"
    using rfind_bounds [of p "CHR ''/''"] by arith
  then have "slice_to (p @ ?x) (rfind p CHR ''/'' + 1) = slice_to p (rfind p CHR ''/'' + 1)"
    by (simp add: slice_to_def)
  then show ?thesis unfolding dirname_def sl by simp
qed

text \<open>
  Claim C9. For every input path, the temporary path of \<open>strip_metadata\<close> is the input
  path followed by \<open>_stripped\<close> and the input's extension; it lies in the same directory
  as the input, has the same extension, carries the suffix \<open>_stripped\<close> right after the
  input path, and differs from the input path.
\<close>

theorem stripped_file_path_sibling:
  "stripped_file_path file_path = file_path @ ''_stripped'' @ snd (splitext file_path)
   \<and> dirname (stripped_file_path file_path) = dirname file_path
   \<and> snd (splitext (stripped_file_path file_path)) = snd (splitext file_path)
   \<and> take 9 (drop (length file_path) (stripped_file_path file_path)) = ''_stripped''
   \<and> stripped_file_path file_path \<noteq> file_path"
proof (intro conjI)
  show "stripped_file_path file_path = file_path @ ''_stripped'' @ snd (splitext file_path)"
    by (rule stripped_file_path_def)
  show "dirname (stripped_file_path file_path) = dirname file_path"
    unfolding stripped_file_path_def by (rule dirname_stable)
  show "snd (splitext (stripped_file_path file_path)) = snd (splitext file_path)"
    unfolding stripped_file_path_def by (rule ext_stable)
  show "take 9 (drop (length file_path) (stripped_file_path file_path)) = ''_stripped''"
    unfolding stripped_file_path_def by simp
  show "stripped_file_path file_path \<noteq> file_path"
    unfolding stripped_file_path_def by simp
qed

theorem stripped_file_path_sibling_witness:
  "stripped_file_path ''/a/b/c.mp4'' = ''/a/b/c.mp4_stripped.mp4''
   \<and> dirname (stripped_file_path ''/a/b/c.mp4'') = ''/a/b''
   \<and> snd (splitext (stripped_file_path ''/a/b/c.mp4'')) = ''.mp4''"
proof -
  have e: "snd (splitext ''/a/b/c.mp4'') = ''.mp4''" by code_simp
  have d: "dirname ''/a/b/c.mp4'' = ''/a/b''" by code_simp
  from stripped_file_path_sibling [of "''/a/b/c.mp4''"]
  have "stripped_file_path ''/a/b/c.mp4'' = ''/a/b/c.mp4'' @ ''_stripped'' @ snd (splitext ''/a/b/c.mp4'')"
    and "dirname (stripped_file_path ''/a/b/c.mp4'') = dirname ''/a/b/c.mp4''"
    and "snd (splitext (stripped_file_path ''/a/b/c.mp4'')) = snd (splitext ''/a/b/c.mp4'')"
    by blast+
  then show ?thesis unfolding e d by simp
qed

section \<open>\<open>process_input\<close>\<close>

text \<open>
  Claim C7. For every input that begins with \<open>http\<close>, \<open>process_input\<close> returns the list
  whose one element is the input, whatever the file system holds, and leaves the world
  as it was: no file is opened and no process is run.
\<close>

theorem process_input_url:
  "startswith input_str ''http'' \<Longrightarrow> process_input input_str w = (Returned [input_str], w)"
  by (simp add: process_input_def)

theorem process_input_url_witness:
  "startswith ''https://example.com/watch?v=1'' ''http'' \<and>
   process_input ''https://example.com/watch?v=1'' empty_world
     = (Returned [''https://example.com/watch?v=1''], empty_world)"
proof -
  have h: "startswith ''https://example.com/watch?v=1'' ''http''"
    by (simp add: startswith_def)
  show ?thesis using h process_input_url [OF h, of empty_world] by simp
qed

subsection \<open>List files\<close>

lemma isspace_newline: "isspace newline"
  by (simp add: isspace_def newline_def)

lemma lstrip_empty_iff: "dropWhile isspace l = [] \<longleftrightarrow> blank l"
  by (simp add: blank_def list_all_iff)

lemma strip_empty_iff: "strip l = [] \<longleftrightarrow> blank l"
proof
  assume "blank l"
  then have e: "dropWhile isspace l = []" by (simp add: blank_def list_all_iff)
  show "strip l = []" unfolding strip_def e by simp
next
  assume "strip l = []"
  then have all: "\<forall>x\<in>set (dropWhile isspace l). isspace x"
    by (simp add: strip_def)
  have "dropWhile isspace l = []"
  proof (rule ccontr)
    assume ne: "dropWhile isspace l \<noteq> []"
    then have "\<not> isspace (hd (dropWhile isspace l))" by (rule hd_dropWhile)
    moreover have "hd (dropWhile isspace l) \<in> set (dropWhile isspace l)"
      using ne by (rule hd_in_set)
    ultimately show False using all by blast
  qed
  then show "blank l" by (simp add: blank_def list_all_iff)
qed

lemma strip_snoc_space:
  assumes "isspace c"
  shows "strip (l @ [c]) = strip l"
proof (cases "blank l")
  case True
  then have "blank (l @ [c])" using assms by (simp add: blank_def)
  then have "strip (l @ [c]) = []" by (simp add: strip_empty_iff)
  moreover have "strip l = []" using True by (simp add: strip_empty_iff)
  ultimately show ?thesis by simp
next
  case False
  then have "\<not> (\<forall>x\<in>set l. isspace x)" by (simp add: blank_def list_all_iff)
  then have "dropWhile isspace (l @ [c]) = dropWhile isspace l @ [c]"
    by (simp add: dropWhile_append)
  then show ?thesis using assms by (simp add: strip_def)
qed

lemma blank_snoc_space: "isspace c \<Longrightarrow> blank (l @ [c]) \<longleftrightarrow> blank l"
  by (simp add: blank_def)

lemma lines_agree:
  "map strip (filter (\<lambda>l. strip l \<noteq> []) (file_lines_from acc s))
     = map strip (filter (\<lambda>l. \<not> blank l) (split_from newline acc s))"
proof (induction s arbitrary: acc)
  case Nil
  then show ?case by (simp add: strip_empty_iff blank_def)
next
  case (Cons c s)
  then show ?case
    by (simp add: strip_empty_iff blank_snoc_space strip_snoc_space isspace_newline)
qed

text \<open>
  \<open>strip\<close> takes whitespace away at both ends and nothing else: what is left, if
  anything, begins and ends with a character that is no whitespace.
\<close>

lemma strip_surrounding:
  "\<exists>a b. l = a @ strip l @ b \<and> blank a \<and> blank b"
proof -
  define a where "a = takeWhile isspace l"
  define m where "m = dropWhile isspace l"
  define b where "b = takeWhile isspace (rev m)"
  define r where "r = dropWhile isspace (rev m)"
  have am: "a @ m = l" unfolding a_def m_def by (rule takeWhile_dropWhile_id)
  have "b @ r = rev m" unfolding b_def r_def by (rule takeWhile_dropWhile_id)
  then have "rev (b @ r) = rev (rev m)" by (rule arg_cong)
  then have m: "m = rev r @ rev b" by simp
  have s: "strip l = rev r" unfolding strip_def r_def m_def ..
  have "l = a @ strip l @ rev b" unfolding s using am m by simp
  moreover have "blank a"
    unfolding a_def blank_def list_all_iff by (auto dest: set_takeWhileD)
  moreover have "blank (rev b)"
    unfolding b_def blank_def list_all_iff by (auto dest: set_takeWhileD)
  ultimately show ?thesis by blast
qed

lemma strip_ends:
  assumes "strip l \<noteq> []"
  shows "\<not> isspace (hd (strip l)) \<and> \<not> isspace (last (strip l))"
proof -
  define m where "m = dropWhile isspace l"
  define r where "r = dropWhile isspace (rev m)"
  have s: "strip l = rev r" unfolding strip_def r_def m_def ..
  with assms have rne: "r \<noteq> []" by simp
  then have a: "\<not> isspace (hd r)" unfolding r_def by (rule hd_dropWhile)
  have mne: "m \<noteq> []" using rne unfolding r_def by (cases m) simp_all
  then have b: "\<not> isspace (hd m)" unfolding m_def by (rule hd_dropWhile)
  have "hd m \<in> set (rev m)" using mne by simp
  then have "last r = last (rev m)" unfolding r_def using b by (rule dropWhile_last)
  then have "last r = hd m" using mne by (simp add: last_rev)
  then have "hd (rev r) = hd m" using rne by (simp add: hd_rev)
  moreover have "last (rev r) = hd r" using rne by (simp add: last_rev)
  ultimately show ?thesis unfolding s using a b by simp
qed

text \<open>
  Claim C6. For every input classified as a list file (no \<open>http\<close> at its start, \<open>.txt\<close>
  at its end in any letter case) where a regular file is at that path: if the file has a
  non-blank line, \<open>process_input\<close> returns exactly the non-blank lines in file order,
  each with its surrounding whitespace removed; if it has none, \<open>process_input\<close> prints
  its message and exits with code 1 instead of returning an empty list.
\<close>

theorem process_input_list_file:
  assumes "\<not> startswith input_str ''http''"
    and "endswith (lower input_str) ''.txt''"
    and "node_at (fs w) (components input_str) = Some (File text)"
  shows "(non_blank_lines text \<noteq> [] \<longrightarrow>
            process_input input_str w
              = (Returned (map strip (non_blank_lines text)), emit (Open input_str) w))
       \<and> (non_blank_lines text = [] \<longrightarrow>
            process_input input_str w
              = (SysExit 1, print ''Error: The .txt file does not contain valid URLs.''
                              (emit (Open input_str) w)))"
proof -
  have "map strip (filter (\<lambda>line. strip line \<noteq> []) (file_lines text))
          = map strip (non_blank_lines text)"
    unfolding file_lines_def non_blank_lines_def text_lines_def by (rule lines_agree)
  then show ?thesis
    using assms by (simp add: process_input_def open_read_def Let_def)
qed

theorem process_input_list_file_witness:
  "(\<not> startswith ''urls.txt'' ''http'' \<and> endswith (lower ''urls.txt'') ''.txt'' \<and>
    node_at (fs (list_file_world sample_list_text)) (components ''urls.txt'')
      = Some (File sample_list_text) \<and>
    non_blank_lines sample_list_text \<noteq> [] \<and>
    process_input ''urls.txt'' (list_file_world sample_list_text)
      = (Returned [''https://a.example/1'', ''https://b.example/2''],
         emit (Open ''urls.txt'') (list_file_world sample_list_text)))
   \<and>
   (node_at (fs (list_file_world blank_list_text)) (components ''urls.txt'')
      = Some (File blank_list_text) \<and>
    non_blank_lines blank_list_text = [] \<and>
    process_input ''urls.txt'' (list_file_world blank_list_text)
      = (SysExit 1, print ''Error: The .txt file does not contain valid URLs.''
                      (emit (Open ''urls.txt'') (list_file_world blank_list_text))))"
proof -
  have a: "\<not> startswith ''urls.txt'' ''http''" by (simp add: startswith_def)
  have b: "endswith (lower ''urls.txt'') ''.txt''" by code_simp
  have c: "node_at (fs (list_file_world t)) (components ''urls.txt'') = Some (File t)" for t
    by (simp add: node_at_def components_def list_file_world_def)
  have n1: "non_blank_lines sample_list_text
              = [''  https://a.example/1  '', ''https://b.example/2'']"
    by code_simp
  have s1: "map strip [''  https://a.example/1  '', ''https://b.example/2'']
              = [''https://a.example/1'', ''https://b.example/2'']"
    by code_simp
  have n2: "non_blank_lines blank_list_text = []"
    by code_simp
  from process_input_list_file [OF a b c, of sample_list_text] n1 s1
  have r1: "process_input ''urls.txt'' (list_file_world sample_list_text)
      = (Returned [''https://a.example/1'', ''https://b.example/2''],
         emit (Open ''urls.txt'') (list_file_world sample_list_text))"
    by simp
  from process_input_list_file [OF a b c, of blank_list_text] n2
  have r2: "process_input ''urls.txt'' (list_file_world blank_list_text)
      = (SysExit 1, print ''Error: The .txt file does not contain valid URLs.''
                      (emit (Open ''urls.txt'') (list_file_world blank_list_text)))"
    by simp
  show ?thesis using a b c n1 n2 r1 r2 by simp
qed

text \<open>
  Claim C10. For every input that does not begin with \<open>http\<close> and ends with \<open>.txt\<close> in
  any letter case, when no file is at that path, \<open>process_input\<close> ends with the
  exception \<open>FileNotFoundError\<close> of \<open>open\<close>: it does not call \<open>sys.exit\<close> and prints
  no message, unlike the other input errors. The main block has no handler either: the
  exception ends the program.
\<close>

theorem process_input_missing_list_file:
  assumes "\<not> startswith input_str ''http''"
    and "endswith (lower input_str) ''.txt''"
    and "node_at (fs w) (components input_str) = None"
  shows "process_input input_str w
           = (Raised (OSError FileNotFoundError), emit (Open input_str) w)
         \<and> (\<forall>run script_directory w0.
               read_source w0 = (input_str, w) \<longrightarrow>
               ask_and_download run script_directory w0
                 = (Raised (OSError FileNotFoundError), emit (Open input_str) w))"
proof -
  have p: "process_input input_str w
             = (Raised (OSError FileNotFoundError), emit (Open input_str) w)"
    using assms by (simp add: process_input_def open_read_def)
  then show ?thesis by (simp add: ask_and_download_def)
qed

theorem process_input_missing_list_file_witness:
  "\<not> startswith ''urls.TXT'' ''http'' \<and> endswith (lower ''urls.TXT'') ''.txt''
   \<and> read_source list_asking_world = (''urls.TXT'', snd (read_source list_asking_world))
   \<and> node_at (fs (snd (read_source list_asking_world))) (components ''urls.TXT'') = None
   \<and> process_input ''urls.TXT'' (snd (read_source list_asking_world))
     = (Raised (OSError FileNotFoundError),
        emit (Open ''urls.TXT'') (snd (read_source list_asking_world)))
   \<and> ask_and_download ffmpeg_missing ''/app'' list_asking_world
     = (Raised (OSError FileNotFoundError),
        emit (Open ''urls.TXT'') (snd (read_source list_asking_world)))"
proof -
  have a: "\<not> startswith ''urls.TXT'' ''http''" by (simp add: startswith_def)
  have b: "endswith (lower ''urls.TXT'') ''.txt''" by code_simp
  have "fst (read_source list_asking_world) = ''urls.TXT''" by code_simp
  then have r: "read_source list_asking_world
                  = (''urls.TXT'', snd (read_source list_asking_world))"
    by (simp add: prod_eq_iff)
  have c: "node_at (fs (snd (read_source list_asking_world))) (components ''urls.TXT'') = None"
    by code_simp
  note t = process_input_missing_list_file [OF a b c]
  from t have p: "process_input ''urls.TXT'' (snd (read_source list_asking_world))
     = (Raised (OSError FileNotFoundError),
        emit (Open ''urls.TXT'') (snd (read_source list_asking_world)))"
    by blast
  from t r have q: "ask_and_download ffmpeg_missing ''/app'' list_asking_world
     = (Raised (OSError FileNotFoundError),
        emit (Open ''urls.TXT'') (snd (read_source list_asking_world)))"
    by blast
  from a b r c p q show ?thesis by (intro conjI)
qed

section \<open>\<open>check_ffmpeg\<close>\<close>

lemma check_ffmpeg_completed:
  "run [''ffmpeg'', ''-version''] w = (Completed rc out err, f') \<Longrightarrow>
   check_ffmpeg run w
     = (Returned (rc = 0), emit (Exec [''ffmpeg'', ''-version'']) (w\<lparr>fs := f'\<rparr>))"
  by (simp add: check_ffmpeg_def subprocess_run_def)

lemma check_ffmpeg_not_started:
  "run [''ffmpeg'', ''-version''] w = (NotStarted e, f') \<Longrightarrow>
   check_ffmpeg run w = (Raised (OSError e), emit (Exec [''ffmpeg'', ''-version'']) w)"
  by (simp add: check_ffmpeg_def subprocess_run_def)

text \<open>
  Claim C4, at a machine where the executable \<open>ffmpeg\<close> cannot be found: the child
  process cannot be started, \<open>subprocess.run\<close> raises \<open>FileNotFoundError\<close>, and
  \<open>check_ffmpeg\<close>, which handles \<open>CalledProcessError\<close> only, ends with that exception
  where the claim and the docstring say it returns false.
\<close>

theorem check_ffmpeg_missing_tool_raises:
  "check_ffmpeg ffmpeg_missing empty_world
     = (Raised (OSError FileNotFoundError),
        \<lparr>fs = Map.empty, trace = [Exec [''ffmpeg'', ''-version'']], stdin = []\<rparr>)"
  by (simp add: check_ffmpeg_def subprocess_run_def ffmpeg_missing_def emit_def empty_world_def)

section \<open>\<open>create_output_directory\<close>\<close>

lemma makedirs_from_stable: "all_dirs d ns f \<Longrightarrow> makedirs_from d ns f = Inr f"
  by (induction ns arbitrary: d) auto

lemma makedirs_from_keeps_dirs:
  "makedirs_from d ns f = Inr f' \<Longrightarrow> f p = Some Dir \<Longrightarrow> f' p = Some Dir"
proof (induction ns arbitrary: d f)
  case Nil
  then show ?case by simp
next
  case (Cons n ns)
  show ?case
  proof (cases "f (d @ [n])")
    case None
    with Cons.prems have "makedirs_from (d @ [n]) ns (f(d @ [n] \<mapsto> Dir)) = Inr f'" by simp
    moreover have "(f(d @ [n] \<mapsto> Dir)) p = Some Dir" using Cons.prems(2) by simp
    ultimately show ?thesis by (rule Cons.IH)
  next
    case (Some x)
    show ?thesis
    proof (cases x)
      case Dir
      with Some Cons.prems have "makedirs_from (d @ [n]) ns f = Inr f'" by simp
      then show ?thesis using Cons.prems(2) by (rule Cons.IH)
    next
      case (File c)
      with Some Cons.prems show ?thesis by simp
    qed
  qed
qed

lemma makedirs_from_all_dirs: "makedirs_from d ns f = Inr f' \<Longrightarrow> all_dirs d ns f'"
proof (induction ns arbitrary: d f)
  case Nil
  then show ?case by simp
next
  case (Cons n ns)
  show ?case
  proof (cases "f (d @ [n])")
    case None
    with Cons.prems have m: "makedirs_from (d @ [n]) ns (f(d @ [n] \<mapsto> Dir)) = Inr f'" by simp
    then have "all_dirs (d @ [n]) ns f'" by (rule Cons.IH)
    moreover have "f' (d @ [n]) = Some Dir"
      using m by (rule makedirs_from_keeps_dirs) simp
    ultimately show ?thesis by simp
  next
    case (Some x)
    show ?thesis
    proof (cases x)
      case Dir
      with Some Cons.prems have m: "makedirs_from (d @ [n]) ns f = Inr f'" by simp
      then have "all_dirs (d @ [n]) ns f'" by (rule Cons.IH)
      moreover have "f' (d @ [n]) = Some Dir"
        using m by (rule makedirs_from_keeps_dirs) (simp add: Some Dir)
      ultimately show ?thesis by simp
    next
      case (File c)
      with Some Cons.prems show ?thesis by simp
    qed
  qed
qed

lemma all_dirs_last: "all_dirs d ns f \<Longrightarrow> ns \<noteq> [] \<Longrightarrow> f (d @ ns) = Some Dir"
proof (induction ns arbitrary: d)
  case Nil
  then show ?case by simp
next
  case (Cons n ns)
  show ?case
  proof (cases "ns = []")
    case True
    with Cons.prems show ?thesis by simp
  next
    case False
    from Cons.prems have "all_dirs (d @ [n]) ns f" by simp
    then have "f ((d @ [n]) @ ns) = Some Dir" using False by (rule Cons.IH)
    then show ?thesis by simp
  qed
qed

lemma all_dirs_isdir: "all_dirs [] (components p) f \<Longrightarrow> os_path_isdir f p"
  using all_dirs_last [of "[]" "components p" f]
  by (auto simp: os_path_isdir_def node_at_def)

lemma os_makedirs_idem: "os_makedirs p f = Inr f' \<Longrightarrow> os_makedirs p f' = Inr f'"
  by (auto simp: os_makedirs_def split: if_splits
           dest!: makedirs_from_all_dirs intro: makedirs_from_stable)

lemma os_makedirs_isdir: "os_makedirs p f = Inr f' \<Longrightarrow> os_path_isdir f' p"
  by (auto simp: os_makedirs_def split: if_splits
           dest!: makedirs_from_all_dirs intro: all_dirs_isdir)

text \<open>
  Claim C8. For every base path and media kind, after a first call of
  \<open>create_output_directory\<close> on the resolved directory that returned, a second call
  with the same arguments returns as well, prints nothing and leaves the world as it is;
  the resolved path is the same both times, and a directory stands there.
\<close>

theorem create_output_directory_idempotent:
  assumes "create_output_directory (output_directory_for base audio_only) w = (Returned (), w1)"
  shows "create_output_directory (output_directory_for base audio_only) w1 = (Returned (), w1)
         \<and> os_path_isdir (fs w1) (output_directory_for base audio_only)"
proof -
  let ?d = "output_directory_for base audio_only"
  from assms obtain f' where f': "os_makedirs ?d (fs w) = Inr f'" and w1: "w1 = w\<lparr>fs := f'\<rparr>"
    by (auto simp: create_output_directory_def split: sum.splits)
  from f' have "os_makedirs ?d f' = Inr f'" by (rule os_makedirs_idem)
  then have "create_output_directory ?d w1 = (Returned (), w1)"
    by (simp add: create_output_directory_def w1)
  moreover from f' have "os_path_isdir (fs w1) ?d"
    unfolding w1 by (simp add: os_makedirs_isdir)
  ultimately show ?thesis by simp
qed

theorem create_output_directory_idempotent_witness:
  "create_output_directory (output_directory_for ''/srv/dl'' False) empty_world
     = (Returned (), made_world)
   \<and> create_output_directory (output_directory_for ''/srv/dl'' False) made_world
     = (Returned (), made_world)
   \<and> os_path_isdir (fs made_world) ''/srv/dl/Video''"
proof -
  have r: "fst (create_output_directory (output_directory_for ''/srv/dl'' False) empty_world)
             = Returned ()"
    by code_simp
  have h: "create_output_directory (output_directory_for ''/srv/dl'' False) empty_world
             = (Returned (), made_world)"
    unfolding made_world_def using r by (simp add: prod_eq_iff)
  have p: "output_directory_for ''/srv/dl'' False = ''/srv/dl/Video''" by code_simp
  from create_output_directory_idempotent [OF h] h show ?thesis unfolding p by simp
qed

section \<open>\<open>strip_metadata\<close>\<close>

lemma fs_emit [simp]: "fs (emit e w) = fs w"
  by (simp add: emit_def)

lemma fs_logging [simp]: "fs (logging l s w) = fs w"
  by (simp add: logging_def)

lemma fs_print [simp]: "fs (print s w) = fs w"
  by (simp add: print_def)

lemma fs_strip_handler [simp]: "fs (strip_handler p e w) = fs w"
  by (simp add: strip_handler_def split: exn.splits oserror.splits)

lemma strip_metadata_nonzero:
  assumes "run (ffmpeg_cmd file_path) w = (Completed rc out err, f')" and "rc \<noteq> 0"
  shows "strip_metadata run file_path w =
     (let w2 = nonzero_warning file_path err f' w
      in if os_path_exists f' (stripped_file_path file_path)
         then (case os_replace (stripped_file_path file_path) file_path f' of
                 Inl e \<Rightarrow> strip_handler file_path (OSError e) w2
               | Inr f'' \<Rightarrow> w2\<lparr>fs := f''\<rparr>)
         else w2)"
  using assms
  by (simp add: strip_metadata_def subprocess_run_def nonzero_warning_def Let_def)

lemma strip_metadata_zero_fs:
  assumes "run (ffmpeg_cmd file_path) w = (Completed 0 out err, f')"
  shows "fs (strip_metadata run file_path w) =
     (case os_replace (stripped_file_path file_path) file_path f' of
        Inl e \<Rightarrow> f' | Inr f'' \<Rightarrow> f'')"
  using assms
  by (simp add: strip_metadata_def subprocess_run_def split: sum.splits)

text \<open>
  Claim C3. For every input path, when the media processor exits with a code other than
  0, \<open>strip_metadata\<close> logs a warning and then: if no temporary file is there, nothing
  is replaced and the file system stays as the tool left it; if the temporary file is
  there as a regular file (and the input path can take it), the input path gets the
  temporary file's content and the temporary file is gone; and whenever the temporary
  path exists, the file system ends as it does after an exit with 0 that left the same
  files.
\<close>

theorem strip_metadata_nonzero_exit:
  assumes "run (ffmpeg_cmd file_path) w = (Completed rc out err, f')" and "rc \<noteq> 0"
  shows "(node_at f' (components (stripped_file_path file_path)) = None \<longrightarrow>
            strip_metadata run file_path w = nonzero_warning file_path err f' w)
       \<and> (\<forall>c. node_at f' (components (stripped_file_path file_path)) = Some (File c)
              \<and> node_at f' (components file_path) \<noteq> Some Dir
              \<and> node_at f' (butlast (components file_path)) = Some Dir \<longrightarrow>
            strip_metadata run file_path w =
              (nonzero_warning file_path err f' w)
                \<lparr>fs := (f'(components (stripped_file_path file_path) := None))
                          (components file_path \<mapsto> File c)\<rparr>)
       \<and> (\<forall>run0 out0 err0.
              run0 (ffmpeg_cmd file_path) w = (Completed 0 out0 err0, f')
              \<and> os_path_exists f' (stripped_file_path file_path) \<longrightarrow>
            fs (strip_metadata run file_path w) = fs (strip_metadata run0 file_path w))"
proof -
  let ?tmp = "stripped_file_path file_path"
  let ?w2 = "nonzero_warning file_path err f' w"
  note nz = strip_metadata_nonzero [of run file_path w rc out err f', OF assms]
  have absent: "strip_metadata run file_path w = ?w2"
    if "node_at f' (components ?tmp) = None"
    using that by (simp add: nz os_path_exists_def Let_def)
  have present: "strip_metadata run file_path w =
      ?w2\<lparr>fs := (f'(components ?tmp := None))(components file_path \<mapsto> File c)\<rparr>"
    if h: "node_at f' (components ?tmp) = Some (File c)
           \<and> node_at f' (components file_path) \<noteq> Some Dir
           \<and> node_at f' (butlast (components file_path)) = Some Dir" for c
  proof -
    from h have "os_replace ?tmp file_path f'
               = Inr ((f'(components ?tmp := None))(components file_path \<mapsto> File c))"
      by (auto simp: os_replace_def split: option.splits node.splits)
    then show ?thesis using h by (simp add: nz os_path_exists_def Let_def)
  qed
  have same: "fs (strip_metadata run file_path w) = fs (strip_metadata run0 file_path w)"
    if h: "run0 (ffmpeg_cmd file_path) w = (Completed 0 out0 err0, f')
           \<and> os_path_exists f' ?tmp" for run0 out0 err0
  proof -
    from h have z: "fs (strip_metadata run0 file_path w) =
       (case os_replace ?tmp file_path f' of Inl e \<Rightarrow> f' | Inr f'' \<Rightarrow> f'')"
      using strip_metadata_zero_fs [of run0 file_path w out0 err0 f'] by simp
    have "fs ?w2 = f'" by (simp add: nonzero_warning_def)
    then have "fs (strip_metadata run file_path w) =
       (case os_replace ?tmp file_path f' of Inl e \<Rightarrow> f' | Inr f'' \<Rightarrow> f'')"
      using h by (simp add: nz Let_def split: sum.splits)
    with z show ?thesis by simp
  qed
  from absent present same show ?thesis by blast
qed

theorem strip_metadata_nonzero_exit_witness:
  "tool_warns_with_temp (ffmpeg_cmd ''/d/x.mp4'') media_world
     = (Completed 1 [] ''no metadata'',
        (fs media_world)([''d'', ''x.mp4_stripped.mp4''] \<mapsto> File ''clean''))
   \<and> strip_metadata tool_warns_with_temp ''/d/x.mp4'' media_world
     = (nonzero_warning ''/d/x.mp4'' ''no metadata''
          ((fs media_world)([''d'', ''x.mp4_stripped.mp4''] \<mapsto> File ''clean'')) media_world)
        \<lparr>fs := (((fs media_world)([''d'', ''x.mp4_stripped.mp4''] \<mapsto> File ''clean''))
                   ([''d'', ''x.mp4_stripped.mp4''] := None))
                  ([''d'', ''x.mp4''] \<mapsto> File ''clean'')\<rparr>
   \<and> fs (strip_metadata tool_warns_with_temp ''/d/x.mp4'' media_world)
     = fs (strip_metadata tool_succeeds ''/d/x.mp4'' media_world)
   \<and> tool_warns_without_temp (ffmpeg_cmd ''/d/x.mp4'') media_world
     = (Completed 1 [] ''no such file'', fs media_world)
   \<and> strip_metadata tool_warns_without_temp ''/d/x.mp4'' media_world
     = nonzero_warning ''/d/x.mp4'' ''no such file'' (fs media_world) media_world"
proof -
  let ?p = "''/d/x.mp4''"
  let ?F1 = "(fs media_world)([''d'', ''x.mp4_stripped.mp4''] \<mapsto> File ''clean'')"
  have tmp: "components (stripped_file_path ?p) = [''d'', ''x.mp4_stripped.mp4'']"
    by code_simp
  have cp: "components ?p = [''d'', ''x.mp4'']" by code_simp
  have r1: "tool_warns_with_temp (ffmpeg_cmd ?p) media_world
              = (Completed 1 [] ''no metadata'', ?F1)"
    by (simp add: tool_warns_with_temp_def)
  have r0: "tool_succeeds (ffmpeg_cmd ?p) media_world = (Completed 0 [] [], ?F1)"
    by (simp add: tool_succeeds_def)
  have r2: "tool_warns_without_temp (ffmpeg_cmd ?p) media_world
              = (Completed 1 [] ''no such file'', fs media_world)"
    by (simp add: tool_warns_without_temp_def)
  have n1: "node_at ?F1 (components (stripped_file_path ?p)) = Some (File ''clean'')
            \<and> node_at ?F1 (components ?p) \<noteq> Some Dir
            \<and> node_at ?F1 (butlast (components ?p)) = Some Dir"
    unfolding tmp cp by (simp add: node_at_def media_world_def)
  have e1: "os_path_exists ?F1 (stripped_file_path ?p)"
    unfolding os_path_exists_def tmp by (simp add: node_at_def)
  have n2: "node_at (fs media_world) (components (stripped_file_path ?p)) = None"
    unfolding tmp by (simp add: node_at_def media_world_def)
  note t1 = strip_metadata_nonzero_exit
              [of tool_warns_with_temp ?p media_world 1 "[]" "''no metadata''" ?F1,
               OF r1 one_neq_zero]
  note t2 = strip_metadata_nonzero_exit
              [of tool_warns_without_temp ?p media_world 1 "[]" "''no such file''"
                  "fs media_world", OF r2 one_neq_zero]
  from t1 n1 have a: "strip_metadata tool_warns_with_temp ?p media_world
     = (nonzero_warning ?p ''no metadata'' ?F1 media_world)
        \<lparr>fs := (?F1(components (stripped_file_path ?p) := None))
                  (components ?p \<mapsto> File ''clean'')\<rparr>"
    by blast
  from t1 r0 e1 have b: "fs (strip_metadata tool_warns_with_temp ?p media_world)
     = fs (strip_metadata tool_succeeds ?p media_world)"
    by blast
  from t2 n2 have c: "strip_metadata tool_warns_without_temp ?p media_world
     = nonzero_warning ?p ''no such file'' (fs media_world) media_world"
    by blast
  from a have a': "strip_metadata tool_warns_with_temp ?p media_world
     = (nonzero_warning ?p ''no metadata'' ?F1 media_world)
        \<lparr>fs := (?F1([''d'', ''x.mp4_stripped.mp4''] := None))
                  ([''d'', ''x.mp4''] \<mapsto> File ''clean'')\<rparr>"
    unfolding tmp cp .
  from r1 a' b r2 c show ?thesis by (intro conjI)
qed

section \<open>\<open>download_youtube_media\<close>: finding the downloaded file\<close>

subsection \<open>The search is a search line by line\<close>

lemma newline_notin_announcement: "newline \<notin> set announcement"
  by (simp add: announcement_def newline_def)

lemma announcement_nonempty: "announcement \<noteq> []"
  by (simp add: announcement_def)

lemma match_here_line:
  assumes "newline \<notin> set s"
  shows "match_here s = (if occurs_at s 0 then Some (drop (length announcement) s) else None)"
proof -
  have tw: "takeWhile (\<lambda>c. c \<noteq> newline) (drop (length announcement) s)
          = drop (length announcement) s"
    using assms by (auto dest: in_set_dropD)
  show ?thesis
    unfolding match_here_def Let_def tw startswith_def occurs_at_def by auto
qed

lemma match_here_newline: "match_here (newline # rest) = None"
  by (simp add: match_here_def startswith_def announcement_def newline_def)

lemma match_here_before_newline:
  assumes "newline \<notin> set s"
  shows "match_here (s @ newline # rest) = match_here s"
proof (cases "length announcement \<le> length s")
  case True
  have nl: "\<forall>x\<in>set (drop (length announcement) s). x \<noteq> newline"
    using assms by (auto dest: in_set_dropD)
  have d: "drop (length announcement) (s @ newline # rest)
             = drop (length announcement) s @ newline # rest"
    using True by simp
  have t: "take (length announcement) (s @ newline # rest) = take (length announcement) s"
    using True by simp
  have tw1: "takeWhile (\<lambda>c. c \<noteq> newline) (drop (length announcement) s @ newline # rest)
          = drop (length announcement) s"
    using nl by (simp add: takeWhile_tail)
  have tw2: "takeWhile (\<lambda>c. c \<noteq> newline) (drop (length announcement) s)
          = drop (length announcement) s"
    using nl by simp
  show ?thesis
    unfolding match_here_def Let_def startswith_def d t tw1 tw2 ..
next
  case False
  then have short: "length s < length announcement" by simp
  then obtain k where k: "length announcement = length s + Suc k"
    using less_iff_Suc_add by auto
  have "take (length announcement) (s @ newline # rest) \<noteq> announcement"
  proof
    assume eq: "take (length announcement) (s @ newline # rest) = announcement"
    have "take (length s + Suc k) (s @ newline # rest) = s @ newline # take k rest"
      by simp
    then have "newline \<in> set (take (length announcement) (s @ newline # rest))"
      unfolding k by simp
    with eq newline_notin_announcement show False by simp
  qed
  moreover have "take (length announcement) s \<noteq> announcement"
  proof
    assume "take (length announcement) s = announcement"
    then have "length (take (length announcement) s) = length announcement"
      by (rule arg_cong)
    with short show False by simp
  qed
  ultimately show ?thesis unfolding match_here_def startswith_def by simp
qed


lemma match_here_Nil: "match_here [] = None"
  by (simp add: match_here_def startswith_def announcement_def)

lemma find_map_shift: "find P (map f xs) = map_option f (find (\<lambda>x. P (f x)) xs)"
  by (induction xs) auto

lemma find_upt_Suc:
  "find P [0..<Suc n] = (if P 0 then Some 0 else map_option Suc (find (\<lambda>i. P (Suc i)) [0..<n]))"
proof -
  have "[0..<Suc n] = 0 # map Suc [0..<n]"
    by (simp add: upt_conv_Cons map_Suc_upt del: upt_Suc)
  then show ?thesis by (simp add: find_map_shift del: upt_Suc)
qed

lemma occurs_at_Suc: "occurs_at (c # cs) (Suc i) = occurs_at cs i"
  by (simp add: occurs_at_def)

lemma capture_in_line_Cons:
  "capture_in_line (c # cs) =
     (if occurs_at (c # cs) 0 then Some (drop (length announcement) (c # cs))
      else capture_in_line cs)"
proof -
  have "find (occurs_at (c # cs)) [0..<length (c # cs)] =
          (if occurs_at (c # cs) 0 then Some 0
           else map_option Suc (find (occurs_at cs) [0..<length cs]))"
    using find_upt_Suc [of "occurs_at (c # cs)" "length cs"]
    by (simp add: occurs_at_Suc del: upt_Suc)
  then show ?thesis
    by (simp add: capture_in_line_def split: option.splits del: upt_Suc)
qed

lemma capture_in_line_Nil: "capture_in_line [] = None"
  by (simp add: capture_in_line_def)

lemma re_search_line:
  "newline \<notin> set l \<Longrightarrow> re_search_destination l = capture_in_line l"
proof (induction l)
  case Nil
  then show ?case by (simp add: match_here_Nil capture_in_line_Nil)
next
  case (Cons c cs)
  then have "newline \<notin> set (c # cs)" and ih: "re_search_destination cs = capture_in_line cs"
    by simp_all
  then have "match_here (c # cs) =
      (if occurs_at (c # cs) 0 then Some (drop (length announcement) (c # cs)) else None)"
    by (intro match_here_line)
  then show ?case by (simp add: capture_in_line_Cons ih)
qed

lemma re_search_before_newline:
  "newline \<notin> set l \<Longrightarrow>
   re_search_destination (l @ newline # rest) =
     (case re_search_destination l of
        Some g \<Rightarrow> Some g
      | None \<Rightarrow> re_search_destination rest)"
proof (induction l)
  case Nil
  then show ?case by (simp add: match_here_newline match_here_Nil)
next
  case (Cons c cs)
  then have nl: "newline \<notin> set (c # cs)"
    and ih: "re_search_destination (cs @ newline # rest) =
       (case re_search_destination cs of Some g \<Rightarrow> Some g | None \<Rightarrow> re_search_destination rest)"
    by simp_all
  have "match_here ((c # cs) @ newline # rest) = match_here (c # cs)"
    using nl by (rule match_here_before_newline)
  then have m: "match_here (c # cs @ newline # rest) = match_here (c # cs)" by simp
  show ?case by (simp add: m ih split: option.splits)
qed

lemma split_from_line:
  "sep \<notin> set l \<Longrightarrow> split_from sep acc (l @ sep # rest) = (acc @ l) # split_from sep [] rest"
  by (induction l arbitrary: acc) auto

lemma split_from_single: "sep \<notin> set l \<Longrightarrow> split_from sep acc l = [acc @ l]"
  by (induction l arbitrary: acc) auto

lemma re_search_is_first_capture: "re_search_destination out = first_capture out"
proof (induction out rule: length_induct)
  case (1 out)
  show ?case
  proof (cases "newline \<in> set out")
    case False
    then have "text_lines out = [out]" by (simp add: text_lines_def split_from_single)
    then have "first_capture out = capture_in_line out"
      by (simp add: first_capture_def)
    with False show ?thesis by (simp add: re_search_line)
  next
    case True
    then obtain l rest where out: "out = l @ newline # rest" and nl: "newline \<notin> set l"
      using split_list_first by fastforce
    have "length rest < length out" unfolding out by simp
    with 1 have ih: "re_search_destination rest = first_capture rest" by blast
    have tl: "text_lines out = l # text_lines rest"
      unfolding out text_lines_def using nl by (simp add: split_from_line)
    have "first_capture out =
        (case capture_in_line l of Some g \<Rightarrow> Some g | None \<Rightarrow> first_capture rest)"
      unfolding first_capture_def tl by (simp split: option.splits)
    moreover have "re_search_destination out =
        (case capture_in_line l of Some g \<Rightarrow> Some g | None \<Rightarrow> re_search_destination rest)"
      unfolding out using nl by (simp add: re_search_before_newline re_search_line)
    ultimately show ?thesis unfolding ih by simp
  qed
qed


subsection \<open>What the Fetcher does with the output\<close>

lemma stripper_inputs_emit:
  "stripper_inputs (emit e w) =
     stripper_inputs w @
       (case e of
          Exec c \<Rightarrow> (if take 3 c = [''ffmpeg'', ''-hide_banner'', ''-i'']
                     then take 1 (drop 3 c) else [])
        | _ \<Rightarrow> [])"
  by (simp add: stripper_inputs_def emit_def)

lemma stripper_inputs_logging [simp]: "stripper_inputs (logging l s w) = stripper_inputs w"
  by (simp add: logging_def stripper_inputs_emit)

lemma stripper_inputs_print [simp]: "stripper_inputs (print s w) = stripper_inputs w"
  by (simp add: print_def stripper_inputs_emit)

lemma stripper_inputs_fs [simp]: "stripper_inputs (w\<lparr>fs := f\<rparr>) = stripper_inputs w"
  by (simp add: stripper_inputs_def)

lemma stripper_inputs_handler [simp]:
  "stripper_inputs (strip_handler p e w) = stripper_inputs w"
  by (simp add: strip_handler_def split: exn.splits oserror.splits)

lemma stripper_inputs_ffmpeg:
  "stripper_inputs (emit (Exec (ffmpeg_cmd p)) w) = stripper_inputs w @ [p]"
  by (simp add: stripper_inputs_emit ffmpeg_cmd_def)

lemma stripper_inputs_ytdlp:
  "stripper_inputs (emit (Exec (ytdlp_cmd url d a)) w) = stripper_inputs w"
  by (simp add: stripper_inputs_emit ytdlp_cmd_def)

lemma stripper_inputs_strip_metadata:
  "stripper_inputs (strip_metadata run p w) = stripper_inputs w @ [p]"
  by (simp add: strip_metadata_def subprocess_run_def stripper_inputs_ffmpeg Let_def
           split: prod.splits proc.splits sum.splits)

lemma stripper_inputs_fetched:
  "stripper_inputs (fetched_world url d a out err f' w1) = stripper_inputs w1"
  by (simp add: fetched_world_def stripper_inputs_ytdlp)

lemma download_after_success:
  assumes "create_output_directory (output_directory_for base audio_only) w = (Returned (), w1)"
    and "run (ytdlp_cmd url (output_directory_for base audio_only) audio_only)
           (logging INFO (''Downloading started for URL: '' @ url @ '' to ''
                          @ output_directory_for base audio_only) w1)
         = (Completed 0 out err, f')"
  shows "download_youtube_media run url base audio_only w =
     (Returned (),
      case re_search_destination out of
        Some final_file_path \<Rightarrow>
          print (''Media downloaded and metadata stripped successfully for URL: '' @ url)
            (strip_metadata run final_file_path
               (logging INFO (''Download completed successfully: '' @ final_file_path)
                  (fetched_world url (output_directory_for base audio_only) audio_only
                     out err f' w1)))
      | None \<Rightarrow>
          logging WARNING (''Could not locate final file in yt-dlp output for URL: '' @ url)
            (print (''Failed to locate the final file for URL: '' @ url
                    @ ''. Check log for details.'')
               (fetched_world url (output_directory_for base audio_only) audio_only
                  out err f' w1)))"
  using assms
  by (simp add: download_youtube_media_def subprocess_run_def after_download_def
                fetched_world_def Let_def split: option.splits)

lemma create_output_directory_trace:
  "create_output_directory d w = (Returned (), w1) \<Longrightarrow> trace w1 = trace w"
  by (auto simp: create_output_directory_def split: sum.splits)

lemma stripper_inputs_trace: "trace w1 = trace w \<Longrightarrow> stripper_inputs w1 = stripper_inputs w"
  by (simp add: stripper_inputs_def)

text \<open>
  Claim C1, as stated, at two outputs. In the first, the first line that is the
  announcement followed by a path is the second line, announcing \<open>b\<close>; the Fetcher
  gives \<open>a\<close> to the Stripper, taken from the first line, where the announcement
  stands after another character. The second output has no line that is the
  announcement followed by a path, and the Fetcher still calls the Stripper, on \<open>a\<close>.
\<close>

theorem first_destination_line_counterexample:
  "first_destination_line misleading_output = Some ''[download] Destination: b''
   \<and> announced_path ''[download] Destination: b'' = ''b''
   \<and> stripper_inputs (snd (download_youtube_media (downloader_prints misleading_output)
                              ''https://u'' ''/srv/dl'' False empty_world)) = [''a'']
   \<and> first_destination_line midline_output = None
   \<and> stripper_inputs (snd (download_youtube_media (downloader_prints midline_output)
                              ''https://u'' ''/srv/dl'' False empty_world)) = [''a'']"
proof (intro conjI)
  show "first_destination_line misleading_output = Some ''[download] Destination: b''"
    by code_simp
  show "announced_path ''[download] Destination: b'' = ''b''"
    by code_simp
  show "stripper_inputs (snd (download_youtube_media (downloader_prints misleading_output)
                              ''https://u'' ''/srv/dl'' False empty_world)) = [''a'']"
    by code_simp
  show "first_destination_line midline_output = None"
    by code_simp
  show "stripper_inputs (snd (download_youtube_media (downloader_prints midline_output)
                              ''https://u'' ''/srv/dl'' False empty_world)) = [''a'']"
    by code_simp
qed

text \<open>
  Claim C1, amended. After a downloader run that exited with 0 (the output directory
  made): if some line of the captured output holds the announcement
  \<open>[download] Destination: \<close> with at least one character after it, at the start of
  the line or further in, the Fetcher resolves the path to what follows the first such
  place in the first such line and calls the Stripper once, on exactly that path; if no
  line does, it prints and logs that the file could not be located, returns, and does
  not call the Stripper.
\<close>

theorem download_resolves_first_capture:
  assumes "create_output_directory (output_directory_for base audio_only) w = (Returned (), w1)"
    and "run (ytdlp_cmd url (output_directory_for base audio_only) audio_only)
           (logging INFO (''Downloading started for URL: '' @ url @ '' to ''
                          @ output_directory_for base audio_only) w1)
         = (Completed 0 out err, f')"
  shows "(\<forall>path. first_capture out = Some path \<longrightarrow>
            download_youtube_media run url base audio_only w =
              (Returned (),
               print (''Media downloaded and metadata stripped successfully for URL: '' @ url)
                 (strip_metadata run path
                    (logging INFO (''Download completed successfully: '' @ path)
                       (fetched_world url (output_directory_for base audio_only) audio_only
                          out err f' w1))))
            \<and> stripper_inputs (snd (download_youtube_media run url base audio_only w))
                = stripper_inputs w @ [path])
       \<and> (first_capture out = None \<longrightarrow>
            download_youtube_media run url base audio_only w =
              (Returned (),
               logging WARNING
                 (''Could not locate final file in yt-dlp output for URL: '' @ url)
                 (print (''Failed to locate the final file for URL: '' @ url
                         @ ''. Check log for details.'')
                    (fetched_world url (output_directory_for base audio_only) audio_only
                       out err f' w1)))
            \<and> stripper_inputs (snd (download_youtube_media run url base audio_only w))
                = stripper_inputs w)"
proof -
  note d = download_after_success [of base audio_only w w1 run url out err f', OF assms]
  have s: "stripper_inputs w1 = stripper_inputs w"
    using assms(1) by (intro stripper_inputs_trace create_output_directory_trace)
  show ?thesis
    unfolding d re_search_is_first_capture
    by (simp add: stripper_inputs_strip_metadata stripper_inputs_fetched s)
qed

theorem download_resolves_first_capture_witness:
  "create_output_directory (output_directory_for ''/srv/dl'' False) empty_world
     = (Returned (), made_world)
   \<and> first_capture misleading_output = Some ''a''
   \<and> download_youtube_media (downloader_prints misleading_output)
        ''https://u'' ''/srv/dl'' False empty_world
      = (Returned (),
         print (''Media downloaded and metadata stripped successfully for URL: '' @ ''https://u'')
           (strip_metadata (downloader_prints misleading_output) ''a''
              (logging INFO (''Download completed successfully: '' @ ''a'')
                 (fetched_world ''https://u'' (output_directory_for ''/srv/dl'' False) False
                    misleading_output [] (fs made_world) made_world))))
   \<and> first_capture ''[download] 100%'' = None
   \<and> download_youtube_media (downloader_prints ''[download] 100%'')
        ''https://u'' ''/srv/dl'' False empty_world
      = (Returned (),
         logging WARNING
           (''Could not locate final file in yt-dlp output for URL: '' @ ''https://u'')
           (print (''Failed to locate the final file for URL: '' @ ''https://u''
                   @ ''. Check log for details.'')
              (fetched_world ''https://u'' (output_directory_for ''/srv/dl'' False) False
                 ''[download] 100%'' [] (fs made_world) made_world)))
   \<and> stripper_inputs (snd (download_youtube_media (downloader_prints ''[download] 100%'')
                              ''https://u'' ''/srv/dl'' False empty_world))
      = stripper_inputs empty_world"
proof -
  have r: "fst (create_output_directory (output_directory_for ''/srv/dl'' False) empty_world)
             = Returned ()"
    by code_simp
  have mk: "create_output_directory (output_directory_for ''/srv/dl'' False) empty_world
             = (Returned (), made_world)"
    unfolding made_world_def using r by (simp add: prod_eq_iff)
  have rn: "downloader_prints out
              (ytdlp_cmd ''https://u'' (output_directory_for ''/srv/dl'' False) False)
              (logging INFO (''Downloading started for URL: '' @ ''https://u'' @ '' to ''
                             @ output_directory_for ''/srv/dl'' False) made_world)
            = (Completed 0 out [], fs made_world)" for out
    by (simp add: downloader_prints_def ytdlp_cmd_def)
  have c1: "first_capture misleading_output = Some ''a''" by code_simp
  have c2: "first_capture ''[download] 100%'' = None" by code_simp
  note t1 = download_resolves_first_capture
              [where run = "downloader_prints misleading_output" and out = misleading_output,
               OF mk rn]
  note t2 = download_resolves_first_capture
              [where run = "downloader_prints ''[download] 100%''"
                 and out = "''[download] 100%''", OF mk rn]
  from t1 c1 have a: "download_youtube_media (downloader_prints misleading_output)
        ''https://u'' ''/srv/dl'' False empty_world
      = (Returned (),
         print (''Media downloaded and metadata stripped successfully for URL: '' @ ''https://u'')
           (strip_metadata (downloader_prints misleading_output) ''a''
              (logging INFO (''Download completed successfully: '' @ ''a'')
                 (fetched_world ''https://u'' (output_directory_for ''/srv/dl'' False) False
                    misleading_output [] (fs made_world) made_world))))"
    by blast
  from t2 c2 have b: "download_youtube_media (downloader_prints ''[download] 100%'')
        ''https://u'' ''/srv/dl'' False empty_world
      = (Returned (),
         logging WARNING
           (''Could not locate final file in yt-dlp output for URL: '' @ ''https://u'')
           (print (''Failed to locate the final file for URL: '' @ ''https://u''
                   @ ''. Check log for details.'')
              (fetched_world ''https://u'' (output_directory_for ''/srv/dl'' False) False
                 ''[download] 100%'' [] (fs made_world) made_world)))"
    and b2: "stripper_inputs (snd (download_youtube_media (downloader_prints ''[download] 100%'')
                              ''https://u'' ''/srv/dl'' False empty_world))
          = stripper_inputs empty_world"
    by blast+
  from mk c1 a c2 b b2 show ?thesis by (intro conjI)
qed


section \<open>The loop over the URLs\<close>

subsection \<open>The output directory stays\<close>

lemma all_dirs_mono:
  "(\<And>p. f p = Some Dir \<Longrightarrow> g p = Some Dir) \<Longrightarrow> all_dirs d ns f \<Longrightarrow> all_dirs d ns g"
  by (induction ns arbitrary: d) auto

lemma os_replace_keeps_dirs:
  assumes "os_replace src dst f = Inr f''" and "all_dirs d ns f"
  shows "all_dirs d ns f''"
proof -
  have "g p = Some Dir" if "f p = Some Dir" and "os_replace src dst f = Inr g" for p g
    using that
    by (auto simp: os_replace_def node_at_def split: option.splits node.splits if_splits)
  with assms show ?thesis by (intro all_dirs_mono [of f f'' d ns]) auto
qed


lemma output_directory_for_nonempty: "output_directory_for base a \<noteq> []"
  by (simp add: output_directory_for_def os_path_join_def startswith_def)

lemma all_dirs_makedirs: "p \<noteq> [] \<Longrightarrow> all_dirs [] (components p) f \<Longrightarrow> os_makedirs p f = Inr f"
  by (simp add: os_makedirs_def makedirs_from_stable)

lemma os_makedirs_all_dirs: "os_makedirs p f = Inr f' \<Longrightarrow> all_dirs [] (components p) f'"
  by (auto simp: os_makedirs_def split: if_splits dest: makedirs_from_all_dirs)

lemma downloader_urls_emit:
  "downloader_urls (emit e w) =
     downloader_urls w @
       (case e of
          Exec c \<Rightarrow> (if take 1 c = [''yt-dlp''] then take 1 (drop 9 c) else [])
        | _ \<Rightarrow> [])"
  by (simp add: downloader_urls_def emit_def)

lemma downloader_urls_logging [simp]: "downloader_urls (logging l s w) = downloader_urls w"
  by (simp add: logging_def downloader_urls_emit)

lemma downloader_urls_print [simp]: "downloader_urls (print s w) = downloader_urls w"
  by (simp add: print_def downloader_urls_emit)

lemma downloader_urls_fs [simp]: "downloader_urls (w\<lparr>fs := f\<rparr>) = downloader_urls w"
  by (simp add: downloader_urls_def)

lemma downloader_urls_handler [simp]:
  "downloader_urls (strip_handler p e w) = downloader_urls w"
  by (simp add: strip_handler_def split: exn.splits oserror.splits)

lemma downloader_urls_ffmpeg [simp]:
  "downloader_urls (emit (Exec (ffmpeg_cmd p)) w) = downloader_urls w"
  by (simp add: downloader_urls_emit ffmpeg_cmd_def)

lemma downloader_urls_ytdlp:
  "downloader_urls (emit (Exec (ytdlp_cmd url d a)) w) = downloader_urls w @ [url]"
  by (simp add: downloader_urls_emit ytdlp_cmd_def)

lemma downloader_urls_strip_metadata [simp]:
  "downloader_urls (strip_metadata run p w) = downloader_urls w"
  by (simp add: strip_metadata_def subprocess_run_def Let_def
           split: prod.splits proc.splits sum.splits)

lemma downloader_urls_after_download [simp]:
  "downloader_urls (after_download run url out err w) = downloader_urls w"
  by (simp add: after_download_def Let_def split: option.splits)

text \<open>Tools that keep the directories of a path keep them through \<open>strip_metadata\<close>.\<close>

lemma strip_metadata_keeps_dirs:
  assumes keeps: "\<forall>cmd w. all_dirs [] cs (fs w) \<longrightarrow> all_dirs [] cs (snd (run cmd w))"
    and "all_dirs [] cs (fs w)"
  shows "all_dirs [] cs (fs (strip_metadata run p w))"
proof -
  obtain r f' where r: "run (ffmpeg_cmd p) w = (r, f')" by (cases "run (ffmpeg_cmd p) w")
  with assms have f': "all_dirs [] cs f'" by (metis snd_conv)
  show ?thesis
  proof (cases r)
    case (NotStarted e)
    with r assms(2) show ?thesis
      by (simp add: strip_metadata_def subprocess_run_def)
  next
    case (Completed rc out err)
    with r f' show ?thesis
      by (auto simp: strip_metadata_def subprocess_run_def Let_def
               split: sum.splits dest: os_replace_keeps_dirs)
  qed
qed

lemma after_download_keeps_dirs:
  assumes "\<forall>cmd w. all_dirs [] cs (fs w) \<longrightarrow> all_dirs [] cs (snd (run cmd w))"
    and "all_dirs [] cs (fs w)"
  shows "all_dirs [] cs (fs (after_download run url out err w))"
  using assms
  by (auto simp: after_download_def Let_def split: option.splits
           intro!: strip_metadata_keeps_dirs)


subsection \<open>One URL, then the next\<close>

lemma printed_emit:
  "printed (emit e w) = printed w @ (case e of Print s \<Rightarrow> [s] | _ \<Rightarrow> [])"
  by (simp add: printed_def emit_def)

lemma printed_logging [simp]: "printed (logging l s w) = printed w"
  by (simp add: logging_def printed_emit)

lemma printed_fs [simp]: "printed (w\<lparr>fs := f\<rparr>) = printed w"
  by (simp add: printed_def)

lemma printed_handler [simp]: "printed (strip_handler p e w) = printed w"
  by (simp add: strip_handler_def split: exn.splits oserror.splits)

lemma printed_strip_metadata: "printed (strip_metadata run p w) = printed w"
  by (simp add: strip_metadata_def subprocess_run_def printed_emit Let_def
           split: prod.splits proc.splits sum.splits)

lemma alerts_emit:
  "alerts (emit e w) =
     alerts w @ (case e of Log l s \<Rightarrow> (if l = INFO then [] else [(l, s)]) | _ \<Rightarrow> [])"
  by (simp add: alerts_def emit_def)

lemma alerts_fs [simp]: "alerts (w\<lparr>fs := f\<rparr>) = alerts w"
  by (simp add: alerts_def)

lemma alerts_logging: "alerts (logging l s w) = alerts w @ (if l = INFO then [] else [(l, s)])"
  by (simp add: logging_def alerts_emit)

lemma alerts_handler: "length (alerts (strip_handler p e w)) = Suc (length (alerts w))"
  by (simp add: strip_handler_def alerts_logging split: exn.splits oserror.splits)

lemma alerts_strip_failure:
  "\<not> strip_ok run p w \<Longrightarrow> length (alerts w) < length (alerts (strip_metadata run p w))"
  by (auto simp: strip_ok_def strip_metadata_def subprocess_run_def alerts_emit alerts_logging
                 alerts_handler Let_def
           split: prod.splits proc.splits sum.splits)

lemma download_fetch_failure:
  assumes "create_output_directory (output_directory_for base a) w = (Returned (), w1)"
    and "run (ytdlp_cmd url (output_directory_for base a) a)
           (logging INFO (''Downloading started for URL: '' @ url @ '' to ''
                          @ output_directory_for base a) w1)
         = (Completed rc out err, f')"
    and "rc \<noteq> 0"
  shows "download_youtube_media run url base a w =
     (Returned (),
      print (''Error: Failed to download URL: '' @ url @ ''. Check the log for more details.'')
        (logging ERROR
           (''An error occurred while downloading: ''
            @ exn_text (CalledProcessError (ytdlp_cmd url (output_directory_for base a) a) rc))
           (emit (Exec (ytdlp_cmd url (output_directory_for base a) a))
              ((logging INFO (''Downloading started for URL: '' @ url @ '' to ''
                             @ output_directory_for base a) w1)\<lparr>fs := f'\<rparr>))))"
  using assms
  by (simp add: download_youtube_media_def subprocess_run_def Let_def)

lemma download_step:
  assumes starts: "\<forall>cmd w. take 1 cmd = [''yt-dlp''] \<longrightarrow>
                     (\<exists>rc out err. fst (run cmd w) = Completed rc out err)"
    and keeps: "\<forall>cmd w. all_dirs [] (components (output_directory_for base a)) (fs w) \<longrightarrow>
                  all_dirs [] (components (output_directory_for base a)) (snd (run cmd w))"
    and mk: "os_makedirs (output_directory_for base a) (fs w) = Inr f1"
  shows "\<exists>w'. download_youtube_media run url base a w = (Returned (), w')
              \<and> all_dirs [] (components (output_directory_for base a)) (fs w')
              \<and> downloader_urls w' = downloader_urls w @ [url]"
proof -
  let ?d = "output_directory_for base a"
  let ?cs = "components ?d"
  let ?cmd = "ytdlp_cmd url ?d a"
  let ?w2 = "logging INFO (''Downloading started for URL: '' @ url @ '' to '' @ ?d)
               (w\<lparr>fs := f1\<rparr>)"
  have c: "create_output_directory ?d w = (Returned (), w\<lparr>fs := f1\<rparr>)"
    by (simp add: create_output_directory_def mk)
  have d1: "all_dirs [] ?cs (fs ?w2)"
    using mk by (simp add: os_makedirs_all_dirs)
  have "take 1 ?cmd = [''yt-dlp'']" by (simp add: ytdlp_cmd_def)
  with starts obtain rc out err where "fst (run ?cmd ?w2) = Completed rc out err" by blast
  then obtain f' where r: "run ?cmd ?w2 = (Completed rc out err, f')"
    by (cases "run ?cmd ?w2") simp
  from keeps d1 have "all_dirs [] ?cs (snd (run ?cmd ?w2))" by blast
  then have f': "all_dirs [] ?cs f'" unfolding r by (simp only: snd_conv)
  let ?w3 = "emit (Exec ?cmd) (?w2\<lparr>fs := f'\<rparr>)"
  have u3: "downloader_urls ?w3 = downloader_urls w @ [url]"
    by (simp add: downloader_urls_ytdlp)
  have f3: "all_dirs [] ?cs (fs ?w3)" using f' by simp
  show ?thesis
  proof (cases "rc = 0")
    case True
    have "download_youtube_media run url base a w
            = (Returned (), after_download run url out err ?w3)"
      using c r True by (simp add: download_youtube_media_def subprocess_run_def Let_def)
    moreover have "all_dirs [] ?cs (fs (after_download run url out err ?w3))"
      using keeps f3 by (rule after_download_keeps_dirs)
    moreover have "downloader_urls (after_download run url out err ?w3)
                     = downloader_urls w @ [url]"
      using u3 by simp
    ultimately show ?thesis by blast
  next
    case False
    note d = download_fetch_failure [of base a w "w\<lparr>fs := f1\<rparr>" run url rc out err f',
                                      OF c r False]
    show ?thesis unfolding d using f' u3 by simp
  qed
qed

lemma download_all_runs:
  assumes starts: "\<forall>cmd w. take 1 cmd = [''yt-dlp''] \<longrightarrow>
                     (\<exists>rc out err. fst (run cmd w) = Completed rc out err)"
    and keeps: "\<forall>cmd w. all_dirs [] (components (output_directory_for base a)) (fs w) \<longrightarrow>
                  all_dirs [] (components (output_directory_for base a)) (snd (run cmd w))"
  shows "os_makedirs (output_directory_for base a) (fs w) = Inr f1 \<Longrightarrow>
         \<exists>w'. download_all run urls base a w = (Returned (), w')
              \<and> downloader_urls w' = downloader_urls w @ urls"
proof (induction urls arbitrary: w f1)
  case Nil
  then show ?case by simp
next
  case (Cons url urls)
  from download_step [OF starts keeps Cons.prems, of url]
  obtain w1 where w1: "download_youtube_media run url base a w = (Returned (), w1)"
      "all_dirs [] (components (output_directory_for base a)) (fs w1)"
      "downloader_urls w1 = downloader_urls w @ [url]"
    by blast
  from w1(2) have "os_makedirs (output_directory_for base a) (fs w1) = Inr (fs w1)"
    by (simp add: all_dirs_makedirs output_directory_for_nonempty)
  from Cons.IH [OF this]
  obtain w' where "download_all run urls base a w1 = (Returned (), w')"
      "downloader_urls w' = downloader_urls w1 @ urls"
    by blast
  with w1 show ?case by simp
qed

text \<open>
  Claim C2, as stated, at a strip failure: the downloader announces a file that is not
  there, and the media processor exits with 1 and writes nothing. The failure is caught
  and logged as a warning, but what the user is shown is the line that the media was
  downloaded and its metadata stripped: the failure is not reported.
\<close>

theorem strip_failure_report_counterexample:
  "\<not> strip_ok stripper_fails ''/srv/dl/Video/clip.mp4'' made_world
   \<and> fst (download_youtube_media stripper_fails
             ''https://e.example/1'' ''/srv/dl'' False empty_world) = Returned ()
   \<and> stripper_inputs (snd (download_youtube_media stripper_fails
             ''https://e.example/1'' ''/srv/dl'' False empty_world))
      = [''/srv/dl/Video/clip.mp4'']
   \<and> alerts (snd (download_youtube_media stripper_fails
             ''https://e.example/1'' ''/srv/dl'' False empty_world))
      = [(WARNING,
          ''FFmpeg encountered a non-critical issue while stripping metadata: /srv/dl/Video/clip.mp4: No such file or directory'')]
   \<and> printed (snd (download_youtube_media stripper_fails
             ''https://e.example/1'' ''/srv/dl'' False empty_world))
      = [''Media downloaded and metadata stripped successfully for URL: https://e.example/1'']"
proof (intro conjI)
  show "\<not> strip_ok stripper_fails ''/srv/dl/Video/clip.mp4'' made_world"
    by code_simp
  show "fst (download_youtube_media stripper_fails
             ''https://e.example/1'' ''/srv/dl'' False empty_world) = Returned ()"
    by code_simp
  show "stripper_inputs (snd (download_youtube_media stripper_fails
             ''https://e.example/1'' ''/srv/dl'' False empty_world))
      = [''/srv/dl/Video/clip.mp4'']"
    by code_simp
  show "alerts (snd (download_youtube_media stripper_fails
             ''https://e.example/1'' ''/srv/dl'' False empty_world))
      = [(WARNING,
          ''FFmpeg encountered a non-critical issue while stripping metadata: /srv/dl/Video/clip.mp4: No such file or directory'')]"
    by code_simp
  show "printed (snd (download_youtube_media stripper_fails
             ''https://e.example/1'' ''/srv/dl'' False empty_world))
      = [''Media downloaded and metadata stripped successfully for URL: https://e.example/1'']"
    by code_simp
qed

text \<open>
  Claim C2, amended. When the downloader can be started and the tools leave the output
  directory in place, the loop runs through every sequence of URLs, gives each URL to
  the downloader in order and ends by returning, which is exit status 0, whatever the
  exit codes and outputs of the tools. A fetch failure (an exit code other than 0) is
  caught, logged and reported to the user, and the function returns. A strip failure
  is caught and logged, and nothing is printed for it.
\<close>

theorem download_all_isolates_failures:
  assumes starts: "\<forall>cmd w. take 1 cmd = [''yt-dlp''] \<longrightarrow>
                     (\<exists>rc out err. fst (run cmd w) = Completed rc out err)"
    and keeps: "\<forall>cmd w. all_dirs [] (components (output_directory_for base a)) (fs w) \<longrightarrow>
                  all_dirs [] (components (output_directory_for base a)) (snd (run cmd w))"
    and mk: "os_makedirs (output_directory_for base a) (fs w) = Inr f1"
  shows "(\<exists>w'. download_all run urls base a w = (Returned (), w')
               \<and> downloader_urls w' = downloader_urls w @ urls)
       \<and> (\<forall>url w0 w1 rc out err f'.
             create_output_directory (output_directory_for base a) w0 = (Returned (), w1)
             \<and> run (ytdlp_cmd url (output_directory_for base a) a)
                  (logging INFO (''Downloading started for URL: '' @ url @ '' to ''
                                 @ output_directory_for base a) w1)
                = (Completed rc out err, f')
             \<and> rc \<noteq> 0 \<longrightarrow>
             download_youtube_media run url base a w0 =
               (Returned (),
                print (''Error: Failed to download URL: '' @ url
                       @ ''. Check the log for more details.'')
                  (logging ERROR
                     (''An error occurred while downloading: ''
                      @ exn_text (CalledProcessError
                                    (ytdlp_cmd url (output_directory_for base a) a) rc))
                     (emit (Exec (ytdlp_cmd url (output_directory_for base a) a))
                        ((logging INFO (''Downloading started for URL: '' @ url @ '' to ''
                                       @ output_directory_for base a) w1)\<lparr>fs := f'\<rparr>)))))
       \<and> (\<forall>file_path w0.
             printed (strip_metadata run file_path w0) = printed w0
             \<and> (\<not> strip_ok run file_path w0 \<longrightarrow>
                  length (alerts w0) < length (alerts (strip_metadata run file_path w0))))"
proof (intro conjI allI impI)
  show "\<exists>w'. download_all run urls base a w = (Returned (), w')
             \<and> downloader_urls w' = downloader_urls w @ urls"
    using starts keeps mk by (rule download_all_runs)
next
  fix url w0 w1 rc out err f'
  assume h: "create_output_directory (output_directory_for base a) w0 = (Returned (), w1)
             \<and> run (ytdlp_cmd url (output_directory_for base a) a)
                  (logging INFO (''Downloading started for URL: '' @ url @ '' to ''
                                 @ output_directory_for base a) w1)
                = (Completed rc out err, f')
             \<and> rc \<noteq> 0"
  then show "download_youtube_media run url base a w0 =
               (Returned (),
                print (''Error: Failed to download URL: '' @ url
                       @ ''. Check the log for more details.'')
                  (logging ERROR
                     (''An error occurred while downloading: ''
                      @ exn_text (CalledProcessError
                                    (ytdlp_cmd url (output_directory_for base a) a) rc))
                     (emit (Exec (ytdlp_cmd url (output_directory_for base a) a))
                        ((logging INFO (''Downloading started for URL: '' @ url @ '' to ''
                                       @ output_directory_for base a) w1)\<lparr>fs := f'\<rparr>))))"
    using download_fetch_failure [of base a w0 w1 run url rc out err f'] by blast
next
  fix file_path w0
  show "printed (strip_metadata run file_path w0) = printed w0"
    by (rule printed_strip_metadata)
next
  fix file_path w0
  assume "\<not> strip_ok run file_path w0"
  then show "length (alerts w0) < length (alerts (strip_metadata run file_path w0))"
    by (rule alerts_strip_failure)
qed

theorem download_all_isolates_failures_witness:
  "fst (download_all second_fetch_fails three_urls ''/srv/dl'' False empty_world) = Returned ()
   \<and> downloader_urls (snd (download_all second_fetch_fails three_urls ''/srv/dl'' False
                              empty_world))
      = three_urls
   \<and> printed (snd (download_all second_fetch_fails three_urls ''/srv/dl'' False empty_world))
      = [''Media downloaded and metadata stripped successfully for URL: https://e.example/1'',
         ''Error: Failed to download URL: https://e.example/2. Check the log for more details.'',
         ''Media downloaded and metadata stripped successfully for URL: https://e.example/3'']
   \<and> printed (snd (download_youtube_media second_fetch_fails ''https://e.example/2''
                      ''/srv/dl'' False empty_world))
      = [''Error: Failed to download URL: https://e.example/2. Check the log for more details.'']
   \<and> \<not> strip_ok second_fetch_fails ''/other.mp4'' empty_world
   \<and> length (alerts empty_world)
       < length (alerts (strip_metadata second_fetch_fails ''/other.mp4'' empty_world))
   \<and> printed (strip_metadata second_fetch_fails ''/other.mp4'' empty_world)
       = printed empty_world"
proof -
  let ?d = "output_directory_for ''/srv/dl'' False"
  have cs: "components ?d = [''srv'', ''dl'', ''Video'']" by code_simp
  have starts: "\<forall>cmd w. take 1 cmd = [''yt-dlp''] \<longrightarrow>
                     (\<exists>rc out err. fst (second_fetch_fails cmd w) = Completed rc out err)"
    by (simp add: second_fetch_fails_def)
  have keeps: "\<forall>cmd w. all_dirs [] (components ?d) (fs w) \<longrightarrow>
                  all_dirs [] (components ?d) (snd (second_fetch_fails cmd w))"
    unfolding cs by (simp add: second_fetch_fails_def)
  have r: "fst (create_output_directory ?d empty_world) = Returned ()" by code_simp
  have c: "create_output_directory ?d empty_world = (Returned (), made_world)"
    unfolding made_world_def using r by (simp add: prod_eq_iff)
  then obtain f1 where mk: "os_makedirs ?d (fs empty_world) = Inr f1"
    by (auto simp: create_output_directory_def split: sum.splits)
  note t = download_all_isolates_failures
             [where run = second_fetch_fails and base = "''/srv/dl''" and a = False
                and w = empty_world and urls = three_urls, OF starts keeps mk]
  have e: "downloader_urls empty_world = []" by code_simp
  from t obtain w' where
    w': "download_all second_fetch_fails three_urls ''/srv/dl'' False empty_world
           = (Returned (), w')"
        "downloader_urls w' = downloader_urls empty_world @ three_urls"
    by blast
  then have a1: "fst (download_all second_fetch_fails three_urls ''/srv/dl'' False empty_world)
                   = Returned ()"
    and a2: "downloader_urls (snd (download_all second_fetch_fails three_urls ''/srv/dl'' False
                                     empty_world)) = three_urls"
    by (simp_all add: e)
  have a3: "printed (snd (download_all second_fetch_fails three_urls ''/srv/dl'' False
                            empty_world))
      = [''Media downloaded and metadata stripped successfully for URL: https://e.example/1'',
         ''Error: Failed to download URL: https://e.example/2. Check the log for more details.'',
         ''Media downloaded and metadata stripped successfully for URL: https://e.example/3'']"
    by code_simp
  have rn: "second_fetch_fails (ytdlp_cmd ''https://e.example/2'' ?d False)
              (logging INFO (''Downloading started for URL: '' @ ''https://e.example/2''
                             @ '' to '' @ ?d) made_world)
            = (Completed 1 [] ''ERROR: unavailable'', fs made_world)"
    by (simp add: second_fetch_fails_def ytdlp_cmd_def)
  from t c rn have b: "download_youtube_media second_fetch_fails ''https://e.example/2''
                         ''/srv/dl'' False empty_world =
       (Returned (),
        print (''Error: Failed to download URL: '' @ ''https://e.example/2''
               @ ''. Check the log for more details.'')
          (logging ERROR
             (''An error occurred while downloading: ''
              @ exn_text (CalledProcessError (ytdlp_cmd ''https://e.example/2'' ?d False) 1))
             (emit (Exec (ytdlp_cmd ''https://e.example/2'' ?d False))
                ((logging INFO (''Downloading started for URL: '' @ ''https://e.example/2''
                               @ '' to '' @ ?d) made_world)\<lparr>fs := fs made_world\<rparr>))))"
    by (metis one_neq_zero)
  have pm: "printed made_world = []" by code_simp
  have b': "printed (snd (download_youtube_media second_fetch_fails ''https://e.example/2''
                      ''/srv/dl'' False empty_world))
      = [''Error: Failed to download URL: https://e.example/2. Check the log for more details.'']"
    unfolding b by (simp add: print_def logging_def emit_def printed_def pm [unfolded printed_def])
  have s: "\<not> strip_ok second_fetch_fails ''/other.mp4'' empty_world" by code_simp
  from t s have c1: "length (alerts empty_world)
       < length (alerts (strip_metadata second_fetch_fails ''/other.mp4'' empty_world))"
    by blast
  from t have c2: "printed (strip_metadata second_fetch_fails ''/other.mp4'' empty_world)
       = printed empty_world"
    by blast
  from a1 a2 a3 b' s c1 c2 show ?thesis by (intro conjI)
qed


section \<open>The main program\<close>

subsection \<open>Traces only grow\<close>

lemma extends_refl [simp]: "extends w w"
  by (simp add: extends_def)

lemma extends_trans: "extends a b \<Longrightarrow> extends b c \<Longrightarrow> extends a c"
  by (auto simp: extends_def)

lemma extends_emit [simp]: "extends w (emit e w)"
  by (simp add: extends_def emit_def)

lemma extends_emit_step: "extends w w' \<Longrightarrow> extends w (emit e w')"
  by (auto simp: extends_def emit_def)

lemma extends_print_step: "extends w w' \<Longrightarrow> extends w (print s w')"
  by (simp add: print_def extends_emit_step)

lemma extends_logging_step: "extends w w' \<Longrightarrow> extends w (logging l s w')"
  by (simp add: logging_def extends_emit_step)

lemma extends_fs_step: "extends w w' \<Longrightarrow> extends w (w'\<lparr>fs := f\<rparr>)"
  by (simp add: extends_def)

lemma extends_handler_step: "extends w w' \<Longrightarrow> extends w (strip_handler p e w')"
  by (simp add: strip_handler_def extends_logging_step split: exn.splits oserror.splits)

lemma extends_stdin_step: "extends w w' \<Longrightarrow> extends w (w'\<lparr>stdin := x\<rparr>)"
  by (simp add: extends_def)

lemmas extends_steps =
  extends_emit_step extends_print_step extends_logging_step extends_fs_step
  extends_handler_step extends_stdin_step

lemma extends_subprocess_run: "extends w (snd (subprocess_run run cmd check w))"
  by (simp add: subprocess_run_def extends_steps split: prod.splits proc.splits)

lemma extends_strip_metadata: "extends w (strip_metadata run p w)"
  by (simp add: strip_metadata_def subprocess_run_def Let_def extends_steps
           split: prod.splits proc.splits sum.splits)

lemma extends_strip_metadata_step:
  "extends w w' \<Longrightarrow> extends w (strip_metadata run p w')"
  using extends_strip_metadata extends_trans by blast

lemma extends_after_download: "extends w (after_download run url out err w)"
  by (simp add: after_download_def Let_def extends_steps extends_strip_metadata_step
           split: option.splits)

lemma extends_create_output_directory: "extends w (snd (create_output_directory d w))"
  by (simp add: create_output_directory_def extends_steps split: sum.splits)

lemma extends_download: "extends w (snd (download_youtube_media run url base a w))"
proof -
  have 1: "extends w w1" if "create_output_directory d w = (r, w1)" for d r w1
    using extends_create_output_directory [of w d] that by simp
  have 2: "extends w (after_download run url out err w')" if "extends w w'" for out err w'
    using that extends_after_download extends_trans by blast
  show ?thesis
    by (auto simp: download_youtube_media_def subprocess_run_def Let_def
             split: prod.splits result.splits proc.splits sum.splits exn.splits
             intro!: extends_steps 2 dest: 1)
qed

lemma extends_download_all: "extends w (snd (download_all run urls base a w))"
proof (induction urls arbitrary: w)
  case Nil
  then show ?case by simp
next
  case (Cons url urls)
  obtain r w1 where d: "download_youtube_media run url base a w = (r, w1)"
    by (cases "download_youtube_media run url base a w")
  then have e: "extends w w1" using extends_download [of w run url base a] by simp
  show ?case
  proof (cases r)
    case (Returned u)
    with d have "snd (download_all run (url # urls) base a w) = snd (download_all run urls base a w1)"
      by simp
    with Cons.IH [of w1] e show ?thesis by (auto intro: extends_trans)
  next
    case (SysExit n)
    with d e show ?thesis by simp
  next
    case (Raised x)
    with d e show ?thesis by simp
  qed
qed

lemma extends_process_input: "extends w (snd (process_input s w))"
  by (simp add: process_input_def Let_def extends_steps split: sum.splits)

lemma extends_readline: "extends w (snd (readline w))"
  by (simp add: readline_def extends_steps split: list.splits)


lemma read_source_trace:
  "trace (snd (read_source w)) =
      trace w @
      [Print ''YouTube Media Downloader using yt-dlp'',
       Print
     ''Provide a single URL, or a .txt file containing a list of URLs. Example: `url_list.txt`'',
       Print ''Enter the video URL or path to a .txt file:'',
       Readline]"
  by (simp add: read_source_def readline_def print_def emit_def Let_def
           split: prod.splits list.splits)

lemma extends_read_choice: "extends w (snd (read_choice w))"
  by (simp add: read_choice_def readline_def Let_def extends_steps
           split: prod.splits list.splits)

lemma ask_and_download_trace:
  "\<exists>rest. trace (snd (ask_and_download run script_directory w)) =
      trace w @
      [Print ''YouTube Media Downloader using yt-dlp'',
       Print
     ''Provide a single URL, or a .txt file containing a list of URLs. Example: `url_list.txt`'',
       Print ''Enter the video URL or path to a .txt file:'',
       Readline] @ rest"
proof -
  obtain user_input w1 where r: "read_source w = (user_input, w1)"
    by (cases "read_source w")
  obtain res w2 where p: "process_input user_input w1 = (res, w2)"
    by (cases "process_input user_input w1")
  then have e2: "extends w1 w2" using extends_process_input [of w1 user_input] by simp
  obtain choice w3 where c: "read_choice w2 = (choice, w3)" by (cases "read_choice w2")
  then have "extends w2 w3" using extends_read_choice [of w2] by simp
  with e2 have e3: "extends w1 w3" by (rule extends_trans)
  have loop: "extends w1 (snd (download_all run urls d a w3))" for urls d a
    using e3 extends_download_all by (rule extends_trans)
  have "extends w1 (snd (ask_and_download run script_directory w))"
  proof (cases res)
    case (Returned urls)
    then show ?thesis
      using loop e3 by (simp add: ask_and_download_def Let_def r p c extends_print_step)
  next
    case (SysExit n)
    then show ?thesis using e2 by (simp add: ask_and_download_def r p)
  next
    case (Raised x)
    then show ?thesis using e2 by (simp add: ask_and_download_def r p)
  qed
  then obtain rest where "trace (snd (ask_and_download run script_directory w)) = trace w1 @ rest"
    unfolding extends_def by blast
  moreover have "trace w1 = trace w @
      [Print ''YouTube Media Downloader using yt-dlp'',
       Print
     ''Provide a single URL, or a .txt file containing a list of URLs. Example: `url_list.txt`'',
       Print ''Enter the video URL or path to a .txt file:'',
       Readline]"
    using read_source_trace [of w] r by simp
  ultimately show ?thesis by simp
qed


subsection \<open>The check before the questions\<close>

lemma main_check_failed:
  assumes "run [''ffmpeg'', ''-version''] w = (Completed rc out err, f')" and "rc \<noteq> 0"
  shows "main run sd w =
     (SysExit 1,
      print ''Error: FFmpeg not installed.''
        (emit (Exec [''ffmpeg'', ''-version'']) (w\<lparr>fs := f'\<rparr>)))"
  using assms by (simp add: main_def check_ffmpeg_def subprocess_run_def)

lemma main_check_passed:
  assumes "run [''ffmpeg'', ''-version''] w = (Completed 0 out err, f')"
  shows "main run sd w =
     ask_and_download run sd (emit (Exec [''ffmpeg'', ''-version'']) (w\<lparr>fs := f'\<rparr>))"
  using assms by (simp add: main_def check_ffmpeg_def subprocess_run_def)

lemma main_check_not_started:
  assumes "run [''ffmpeg'', ''-version''] w = (NotStarted e, f')"
  shows "main run sd w = (Raised (OSError e), emit (Exec [''ffmpeg'', ''-version'']) w)"
  using assms by (simp add: main_def check_ffmpeg_def subprocess_run_def)

text \<open>Once the questions are answered, the result of the script is that of the loop.\<close>

lemma ask_and_download_loop:
  assumes "read_source w = (user_input, w1)"
    and "process_input user_input w1 = (Returned urls, w2)"
    and "read_choice w2 = (choice, w3)"
    and "choice = ''a'' \<or> choice = ''v''"
  shows "ask_and_download run script_directory w =
           download_all run urls (os_path_join script_directory ''YouTube_downloads'')
             (choice = ''a'') w3"
  using assms by (auto simp: ask_and_download_def Let_def)

lemma main_passed_trace:
  assumes "run [''ffmpeg'', ''-version''] w = (Completed 0 out err, f')"
  shows "\<exists>rest. trace (snd (main run sd w)) =
      trace w @
      [Exec [''ffmpeg'', ''-version''],
       Print ''YouTube Media Downloader using yt-dlp'',
       Print
     ''Provide a single URL, or a .txt file containing a list of URLs. Example: `url_list.txt`'',
       Print ''Enter the video URL or path to a .txt file:'',
       Readline] @ rest"
  using ask_and_download_trace
          [of run sd "emit (Exec [''ffmpeg'', ''-version'']) (w\<lparr>fs := f'\<rparr>)"]
  unfolding main_check_passed [of run w out err f' sd, OF assms] by (auto simp: emit_def)

text \<open>
  Claim C5, as stated, at a machine that has the media processor and lacks the
  downloader: the program asks both questions and reads both answers, and ends at the
  first download with the exception \<open>FileNotFoundError\<close>; it does not end before
  asking.
\<close>

theorem downloader_unchecked_counterexample:
  "fst (main downloader_missing ''/app'' asking_world) = Raised (OSError FileNotFoundError)
   \<and> trace (snd (main downloader_missing ''/app'' asking_world)) =
       [Exec [''ffmpeg'', ''-version''],
        Print ''YouTube Media Downloader using yt-dlp'',
        Print
     ''Provide a single URL, or a .txt file containing a list of URLs. Example: `url_list.txt`'',
        Print ''Enter the video URL or path to a .txt file:'',
        Readline,
        Print ''Do you want to download the full (V)ideo or (A)udio only? (V/A):'',
        Readline,
        Log INFO
          ''Downloading started for URL: https://e.example/1 to /app/YouTube_downloads/Video'',
        Exec (ytdlp_cmd ''https://e.example/1'' ''/app/YouTube_downloads/Video'' False)]
   \<and> stdin (snd (main downloader_missing ''/app'' asking_world)) = []"
proof (intro conjI)
  show "fst (main downloader_missing ''/app'' asking_world) = Raised (OSError FileNotFoundError)"
    by code_simp
  show "trace (snd (main downloader_missing ''/app'' asking_world)) =
       [Exec [''ffmpeg'', ''-version''],
        Print ''YouTube Media Downloader using yt-dlp'',
        Print
     ''Provide a single URL, or a .txt file containing a list of URLs. Example: `url_list.txt`'',
        Print ''Enter the video URL or path to a .txt file:'',
        Readline,
        Print ''Do you want to download the full (V)ideo or (A)udio only? (V/A):'',
        Readline,
        Log INFO
          ''Downloading started for URL: https://e.example/1 to /app/YouTube_downloads/Video'',
        Exec (ytdlp_cmd ''https://e.example/1'' ''/app/YouTube_downloads/Video'' False)]"
    by code_simp
  show "stdin (snd (main downloader_missing ''/app'' asking_world)) = []"
    by code_simp
qed

text \<open>
  Claim C5, amended. Before any input is requested the program checks one tool, the
  media processor: running \<open>ffmpeg -version\<close> is the first thing it does. If that run
  exits with a code other than 0, the program prints its message and exits with code 1,
  having asked and read nothing. If it exits with 0, the program goes on to the
  questions, and the next things it does are the three lines of the first question and
  the read: no other tool is run before input is requested.
\<close>

theorem main_checks_media_processor_first:
  "(\<exists>rest. trace (snd (main run sd w)) = trace w @ Exec [''ffmpeg'', ''-version''] # rest)
   \<and> (\<forall>rc out err f'.
         run [''ffmpeg'', ''-version''] w = (Completed rc out err, f') \<and> rc \<noteq> 0 \<longrightarrow>
         main run sd w =
           (SysExit 1,
            print ''Error: FFmpeg not installed.''
              (emit (Exec [''ffmpeg'', ''-version'']) (w\<lparr>fs := f'\<rparr>))))
   \<and> (\<forall>out err f'.
         run [''ffmpeg'', ''-version''] w = (Completed 0 out err, f') \<longrightarrow>
         main run sd w =
           ask_and_download run sd (emit (Exec [''ffmpeg'', ''-version'']) (w\<lparr>fs := f'\<rparr>))
         \<and> (\<exists>rest. trace (snd (main run sd w)) =
               trace w @
               [Exec [''ffmpeg'', ''-version''],
                Print ''YouTube Media Downloader using yt-dlp'',
                Print
     ''Provide a single URL, or a .txt file containing a list of URLs. Example: `url_list.txt`'',
                Print ''Enter the video URL or path to a .txt file:'',
                Readline] @ rest))"
proof -
  have first: "\<exists>rest. trace (snd (main run sd w)) = trace w @ Exec [''ffmpeg'', ''-version''] # rest"
  proof -
    obtain r f' where r: "run [''ffmpeg'', ''-version''] w = (r, f')"
      by (cases "run [''ffmpeg'', ''-version''] w")
    show ?thesis
    proof (cases r)
      case (NotStarted e)
      with r show ?thesis by (simp add: main_check_not_started emit_def)
    next
      case (Completed rc out err)
      show ?thesis
      proof (cases "rc = 0")
        case True
        with r Completed main_passed_trace [of run w out err f' sd] show ?thesis by auto
      next
        case False
        with r Completed main_check_failed [of run w rc out err f' sd] show ?thesis
          by (simp add: print_def emit_def)
      qed
    qed
  qed
  have failed: "main run sd w =
           (SysExit 1,
            print ''Error: FFmpeg not installed.''
              (emit (Exec [''ffmpeg'', ''-version'']) (w\<lparr>fs := f'\<rparr>)))"
    if "run [''ffmpeg'', ''-version''] w = (Completed rc out err, f') \<and> rc \<noteq> 0"
    for rc out err f'
    using that main_check_failed [of run w rc out err f' sd] by blast
  have passed: "main run sd w =
           ask_and_download run sd (emit (Exec [''ffmpeg'', ''-version'']) (w\<lparr>fs := f'\<rparr>))
         \<and> (\<exists>rest. trace (snd (main run sd w)) =
               trace w @
               [Exec [''ffmpeg'', ''-version''],
                Print ''YouTube Media Downloader using yt-dlp'',
                Print
     ''Provide a single URL, or a .txt file containing a list of URLs. Example: `url_list.txt`'',
                Print ''Enter the video URL or path to a .txt file:'',
                Readline] @ rest)"
    if "run [''ffmpeg'', ''-version''] w = (Completed 0 out err, f')" for out err f'
    using that main_check_passed [of run w out err f' sd] main_passed_trace [of run w out err f' sd]
    by blast
  from first failed passed show ?thesis by blast
qed

theorem main_checks_media_processor_first_witness:
  "ffmpeg_broken [''ffmpeg'', ''-version''] asking_world
     = (Completed 1 [] ''cannot load library'', fs asking_world)
   \<and> main ffmpeg_broken ''/app'' asking_world =
       (SysExit 1,
        print ''Error: FFmpeg not installed.''
          (emit (Exec [''ffmpeg'', ''-version'']) (asking_world\<lparr>fs := fs asking_world\<rparr>)))
   \<and> downloader_missing [''ffmpeg'', ''-version''] asking_world
     = (Completed 0 [] [], fs asking_world)
   \<and> main downloader_missing ''/app'' asking_world =
       ask_and_download downloader_missing ''/app''
         (emit (Exec [''ffmpeg'', ''-version'']) (asking_world\<lparr>fs := fs asking_world\<rparr>))
   \<and> take 5 (trace (snd (main downloader_missing ''/app'' asking_world))) =
       [Exec [''ffmpeg'', ''-version''],
        Print ''YouTube Media Downloader using yt-dlp'',
        Print
     ''Provide a single URL, or a .txt file containing a list of URLs. Example: `url_list.txt`'',
        Print ''Enter the video URL or path to a .txt file:'',
        Readline]"
proof -
  have r1: "ffmpeg_broken [''ffmpeg'', ''-version''] asking_world
     = (Completed 1 [] ''cannot load library'', fs asking_world)"
    by (simp add: ffmpeg_broken_def)
  have r2: "downloader_missing [''ffmpeg'', ''-version''] asking_world
     = (Completed 0 [] [], fs asking_world)"
    by (simp add: downloader_missing_def)
  note t1 = main_checks_media_processor_first [of ffmpeg_broken "''/app''" asking_world]
  note t2 = main_checks_media_processor_first [of downloader_missing "''/app''" asking_world]
  from t1 r1 have a: "main ffmpeg_broken ''/app'' asking_world =
       (SysExit 1,
        print ''Error: FFmpeg not installed.''
          (emit (Exec [''ffmpeg'', ''-version'']) (asking_world\<lparr>fs := fs asking_world\<rparr>)))"
    by (metis one_neq_zero)
  from t2 r2 have b: "main downloader_missing ''/app'' asking_world =
       ask_and_download downloader_missing ''/app''
         (emit (Exec [''ffmpeg'', ''-version'']) (asking_world\<lparr>fs := fs asking_world\<rparr>))"
    by blast
  from t2 r2 obtain rest where "trace (snd (main downloader_missing ''/app'' asking_world)) =
       trace asking_world @
       [Exec [''ffmpeg'', ''-version''],
        Print ''YouTube Media Downloader using yt-dlp'',
        Print
     ''Provide a single URL, or a .txt file containing a list of URLs. Example: `url_list.txt`'',
        Print ''Enter the video URL or path to a .txt file:'',
        Readline] @ rest"
    by blast
  then have c: "take 5 (trace (snd (main downloader_missing ''/app'' asking_world))) =
       [Exec [''ffmpeg'', ''-version''],
        Print ''YouTube Media Downloader using yt-dlp'',
        Print
     ''Provide a single URL, or a .txt file containing a list of URLs. Example: `url_list.txt`'',
        Print ''Enter the video URL or path to a .txt file:'',
        Readline]"
    by (simp add: asking_world_def)
  from r1 a r2 b c show ?thesis by (intro conjI)
qed


end
